theory Spec2Isabelle
  imports Complex_Main "HOL-Library.Sublist"
begin

section \<open>Strings and the library functions the rules call\<close>

text \<open>
  A Go string is a sequence of bytes; it is modelled as \<open>string\<close> (a list of 8-bit
  characters). \<open>strings.Contains\<close>, \<open>strings.HasPrefix\<close> and \<open>strings.HasSuffix\<close> are
  \<open>sublist\<close>, \<open>prefix\<close> and \<open>suffix\<close> with the pattern as first argument; as in Go,
  the empty pattern is contained in every string.
\<close>

definition strings_Contains :: "string \<Rightarrow> string \<Rightarrow> bool" where
  "strings_Contains s substr = sublist substr s"

definition strings_HasPrefix :: "string \<Rightarrow> string \<Rightarrow> bool" where
  "strings_HasPrefix s p = prefix p s"

definition strings_HasSuffix :: "string \<Rightarrow> string \<Rightarrow> bool" where
  "strings_HasSuffix s p = suffix p s"

definition strings_TrimPrefix :: "string \<Rightarrow> string \<Rightarrow> string" where
  "strings_TrimPrefix s p = (if prefix p s then drop (length p) s else s)"

subsection \<open>Runes\<close>

text \<open>
  A loop \<open>for _, r := range s\<close> walks the string rune by rune, and so do
  \<open>strings.Map\<close> and the regular expression matcher. \<open>decoderune\<close> is the runtime's
  UTF-8 step: the code point at the head of a non-empty string and the number of bytes it
  takes; a byte that starts no valid encoding is the replacement rune \<open>0xFFFD\<close> of width
  one. \<open>runes_from k\<close> is the loop, \<open>k\<close> counting the bytes still to skip because they
  belong to the rune just read. \<open>encoderune\<close> is \<open>utf8.AppendRune\<close>: the bytes of a code
  point, those of the replacement rune for a surrogate or a value beyond \<open>0x10FFFF\<close>.
\<close>

definition cont_byte :: "char \<Rightarrow> bool" where
  "cont_byte c = (128 \<le> (of_char c :: nat) \<and> (of_char c :: nat) \<le> 191)"

definition runeError :: nat where
  "runeError = 65533"

fun decoderune :: "string \<Rightarrow> nat \<times> nat" where
  "decoderune [] = (runeError, 1)"
| "decoderune (b0 # rest) =
     (let n0 = (of_char b0 :: nat) in
      if n0 < 128 then (n0, 1)
      else if 192 \<le> n0 \<and> n0 < 224 then
        (case rest of
           b1 # _ \<Rightarrow>
             (let r = (n0 mod 32) * 64 + (of_char b1 :: nat) mod 64 in
              if cont_byte b1 \<and> 127 < r then (r, 2) else (runeError, 1))
         | _ \<Rightarrow> (runeError, 1))
      else if 224 \<le> n0 \<and> n0 < 240 then
        (case rest of
           b1 # b2 # _ \<Rightarrow>
             (let r = (n0 mod 16) * 4096 + ((of_char b1 :: nat) mod 64) * 64
                      + (of_char b2 :: nat) mod 64 in
              if cont_byte b1 \<and> cont_byte b2 \<and> 2047 < r \<and> \<not> (55296 \<le> r \<and> r \<le> 57343)
              then (r, 3) else (runeError, 1))
         | _ \<Rightarrow> (runeError, 1))
      else if 240 \<le> n0 \<and> n0 < 248 then
        (case rest of
           b1 # b2 # b3 # _ \<Rightarrow>
             (let r = (n0 mod 8) * 262144 + ((of_char b1 :: nat) mod 64) * 4096
                      + ((of_char b2 :: nat) mod 64) * 64 + (of_char b3 :: nat) mod 64 in
              if cont_byte b1 \<and> cont_byte b2 \<and> cont_byte b3 \<and> 65535 < r \<and> r \<le> 1114111
              then (r, 4) else (runeError, 1))
         | _ \<Rightarrow> (runeError, 1))
      else (runeError, 1))"

fun runes_from :: "nat \<Rightarrow> string \<Rightarrow> nat list" where
  "runes_from k [] = []"
| "runes_from k (b # bs) =
     (if 0 < k then runes_from (k - 1) bs
      else (case decoderune (b # bs) of (r, w) \<Rightarrow> r # runes_from (w - 1) bs))"

definition runes :: "string \<Rightarrow> nat list" where
  "runes s = runes_from 0 s"

definition byte :: "nat \<Rightarrow> char" where
  "byte n = char_of n"

definition encoderune :: "nat \<Rightarrow> string" where
  "encoderune r =
     (if r < 128 then [byte r]
      else if r < 2048 then [byte (192 + r div 64), byte (128 + r mod 64)]
      else if 1114111 < r \<or> (55296 \<le> r \<and> r \<le> 57343) then
        [byte 239, byte 191, byte 189]
      else if r < 65536 then
        [byte (224 + r div 4096), byte (128 + (r div 64) mod 64), byte (128 + r mod 64)]
      else
        [byte (240 + r div 262144), byte (128 + (r div 4096) mod 64),
         byte (128 + (r div 64) mod 64), byte (128 + r mod 64)])"

subsection \<open>Letter case\<close>

text \<open>
  \<open>strings.ToUpper\<close> and \<open>strings.ToLower\<close>. On a string of ASCII bytes the library
  changes the letters byte by byte. On any other string it calls \<open>strings.Map\<close> with
  \<open>unicode.ToUpper\<close> or \<open>unicode.ToLower\<close>: every rune of the input, a stray byte read as
  the replacement rune, is mapped and encoded again. The two rune mappings are tables of
  the standard library; they are the parameter \<open>U\<close> of everything that changes case.
\<close>

record Unicode =
  unicode_ToUpper :: "nat \<Rightarrow> nat"
  unicode_ToLower :: "nat \<Rightarrow> nat"

definition ascii_lower :: string where
  "ascii_lower = ''abcdefghijklmnopqrstuvwxyz''"

definition ascii_upper :: string where
  "ascii_upper = ''ABCDEFGHIJKLMNOPQRSTUVWXYZ''"

definition upper_byte :: "char \<Rightarrow> char" where
  "upper_byte c = (case map_of (zip ascii_lower ascii_upper) c of Some u \<Rightarrow> u | None \<Rightarrow> c)"

definition lower_byte :: "char \<Rightarrow> char" where
  "lower_byte c = (case map_of (zip ascii_upper ascii_lower) c of Some l \<Rightarrow> l | None \<Rightarrow> c)"

definition isASCII :: "string \<Rightarrow> bool" where
  "isASCII s = list_all (\<lambda>c. (of_char c :: nat) < 128) s"

definition strings_Map :: "(nat \<Rightarrow> nat) \<Rightarrow> string \<Rightarrow> string" where
  "strings_Map mapping s = concat (map (\<lambda>c. encoderune (mapping c)) (runes s))"

definition strings_ToUpper :: "Unicode \<Rightarrow> string \<Rightarrow> string" where
  "strings_ToUpper U s =
     (if isASCII s then map upper_byte s else strings_Map (unicode_ToUpper U) s)"

definition strings_ToLower :: "Unicode \<Rightarrow> string \<Rightarrow> string" where
  "strings_ToLower U s =
     (if isASCII s then map lower_byte s else strings_Map (unicode_ToLower U) s)"

text \<open>
  The values of the two tables on the ASCII range and on the four code points beyond it
  that they send to an ASCII letter: dotless i (\<open>0x131\<close>) and long s (\<open>0x17F\<close>) have the
  capitals I and S, capital I with dot (\<open>0x130\<close>) and the Kelvin sign (\<open>0x212A\<close>) have
  the small letters i and k. Every other code point is left as it is here, which is not
  the library's value for the other letters beyond ASCII; the mapping serves to run the
  functions on examples whose runes are all among those listed.
\<close>

definition listed_upper :: "nat \<Rightarrow> nat" where
  "listed_upper r =
     (if 97 \<le> r \<and> r \<le> 122 then r - 32
      else if r = 305 then 73
      else if r = 383 then 83
      else r)"

definition listed_lower :: "nat \<Rightarrow> nat" where
  "listed_lower r =
     (if 65 \<le> r \<and> r \<le> 90 then r + 32
      else if r = 304 then 105
      else if r = 8490 then 107
      else r)"

definition listed_unicode :: Unicode where
  "listed_unicode = \<lparr>unicode_ToUpper = listed_upper, unicode_ToLower = listed_lower\<rparr>"

subsection \<open>Compiled regular expressions\<close>

text \<open>
  The value a successful \<open>regexp.Compile\<close> returns, as a syntax tree over code points, and
  its method \<open>MatchString\<close>: true when some run of consecutive runes of the input is in the
  language of the expression. \<open>Class cs\<close> is a bracket expression, \<open>AnyNotNL\<close> is the
  dot, which takes one rune that is not the newline. The parser \<open>regexp.Compile\<close> itself
  belongs to the standard library; the functions below take it as the parameter \<open>rc\<close>,
  \<open>Inl\<close> carrying the error text.
\<close>

datatype Regexp =
    Eps
  | Class "nat list"
  | AnyNotNL
  | Seq Regexp Regexp
  | Alt Regexp Regexp
  | Star Regexp
  | Never

primrec nullable :: "Regexp \<Rightarrow> bool" where
  "nullable Eps = True"
| "nullable (Class cs) = False"
| "nullable AnyNotNL = False"
| "nullable (Seq a b) = (nullable a \<and> nullable b)"
| "nullable (Alt a b) = (nullable a \<or> nullable b)"
| "nullable (Star a) = True"
| "nullable Never = False"

primrec deriv :: "nat \<Rightarrow> Regexp \<Rightarrow> Regexp" where
  "deriv c Eps = Never"
| "deriv c (Class cs) = (if c \<in> set cs then Eps else Never)"
| "deriv c AnyNotNL = (if c = 10 then Never else Eps)"
| "deriv c (Seq a b) =
     (if nullable a then Alt (Seq (deriv c a) b) (deriv c b) else Seq (deriv c a) b)"
| "deriv c (Alt a b) = Alt (deriv c a) (deriv c b)"
| "deriv c (Star a) = Seq (deriv c a) (Star a)"
| "deriv c Never = Never"

primrec matches_at :: "nat list \<Rightarrow> Regexp \<Rightarrow> bool" where
  "matches_at [] re = nullable re"
| "matches_at (c # cs) re = (nullable re \<or> matches_at cs (deriv c re))"

primrec match_runes :: "Regexp \<Rightarrow> nat list \<Rightarrow> bool" where
  "match_runes re [] = nullable re"
| "match_runes re (c # cs) = (matches_at (c # cs) re \<or> match_runes re cs)"

definition MatchString :: "Regexp \<Rightarrow> string \<Rightarrow> bool" where
  "MatchString re s = match_runes re (runes s)"

section \<open>Rules (package waf)\<close>

type_synonym RuleAction = string
type_synonym RulePhase = string
type_synonym RuleOperator = string

definition ActionBlock :: RuleAction where "ActionBlock = ''block''"
definition ActionLog :: RuleAction where "ActionLog = ''log''"
definition ActionPass :: RuleAction where "ActionPass = ''pass''"

definition PhaseRequestHeaders :: RulePhase where "PhaseRequestHeaders = ''request_headers''"
definition PhaseRequestURI :: RulePhase where "PhaseRequestURI = ''request_uri''"
definition PhaseRequestBody :: RulePhase where "PhaseRequestBody = ''request_body''"
definition PhaseResponseHeaders :: RulePhase where "PhaseResponseHeaders = ''response_headers''"
definition PhaseResponseBody :: RulePhase where "PhaseResponseBody = ''response_body''"

definition OpContains :: RuleOperator where "OpContains = ''contains''"
definition OpRegex :: RuleOperator where "OpRegex = ''regex''"
definition OpStartsWith :: RuleOperator where "OpStartsWith = ''startswith''"
definition OpEndsWith :: RuleOperator where "OpEndsWith = ''endswith''"
definition OpEquals :: RuleOperator where "OpEquals = ''equals''"
definition OpNotContains :: RuleOperator where "OpNotContains = ''notcontains''"
definition OpNotRegex :: RuleOperator where "OpNotRegex = ''notregex''"
definition OpHighEntropy :: RuleOperator where "OpHighEntropy = ''high_entropy''"
definition OpSQLi :: RuleOperator where "OpSQLi = ''sqli''"
definition OpXSS :: RuleOperator where "OpXSS = ''xss''"

text \<open>
  The struct \<open>Rule\<close>. Phase, operator and action are Go string types, so a rule can
  carry any text there (the command line casts its flags to them unchecked).
  \<open>regex\<close> is the pointer to the compiled pattern, \<open>None\<close> for \<open>nil\<close>.
\<close>

record Rule =
  ID :: int
  Name :: string
  Description :: string
  Phase :: RulePhase
  Operator :: RuleOperator
  Pattern :: string
  Target :: string
  Action :: RuleAction
  Severity :: string
  Enabled :: bool
  regex :: "Regexp option"

text \<open>\<open>Compile\<close>: only the two regex operators compile; an error leaves the rule as it was.\<close>

definition Compile :: "(string \<Rightarrow> string + Regexp) \<Rightarrow> Rule \<Rightarrow> string + Rule" where
  "Compile rc r =
     (if Operator r = OpRegex \<or> Operator r = OpNotRegex then
        (case rc (Pattern r) of
           Inl err \<Rightarrow> Inl err
         | Inr re \<Rightarrow> Inr (r\<lparr>regex := Some re\<rparr>))
      else Inr r)"

subsection \<open>Entropy\<close>

text \<open>
  The frequency table \<open>freq\<close> as an association list, keys in order of first occurrence.
  The second loop adds one term per key; Go walks a map in no fixed order, and the sum
  is taken here over the real numbers, where the order is immaterial: the \<open>float64\<close> of
  this function is idealised as \<open>real\<close>.
\<close>

fun freq_incr :: "nat \<Rightarrow> (nat \<times> real) list \<Rightarrow> (nat \<times> real) list" where
  "freq_incr r [] = [(r, 1)]"
| "freq_incr r ((k, f) # m) = (if k = r then (k, f + 1) # m else (k, f) # freq_incr r m)"

definition freq_table :: "nat list \<Rightarrow> (nat \<times> real) list" where
  "freq_table rs = foldl (\<lambda>m r. freq_incr r m) [] rs"

definition calculateEntropy :: "string \<Rightarrow> real" where
  "calculateEntropy s =
     (if length s = 0 then 0
      else foldl (\<lambda>entropy (r, f).
                    entropy - (f / real (length s)) * log 2 (f / real (length s)))
                 0 (freq_table (runes s)))"

subsection \<open>The built-in detectors\<close>

definition sqlPatterns :: "string list" where
  "sqlPatterns =
     [''' OR '1'='1'', ''' OR 1=1'', '''; DROP TABLE'', ''UNION SELECT'', ''' OR 'a'='a'',
      ''admin' --'', ''' /*'', ''*/ OR /*'', ''xp_'', ''sp_'']"

definition detectSQLi :: "Unicode \<Rightarrow> string \<Rightarrow> bool" where
  "detectSQLi U data =
     list_ex (\<lambda>pattern. strings_Contains (strings_ToUpper U data) (strings_ToUpper U pattern))
             sqlPatterns"

definition xssPatterns :: "string list" where
  "xssPatterns =
     [''<script'', ''javascript:'', ''onerror='', ''onload='', ''onclick='', ''onmouseover='',
      ''<iframe'', ''<object'', ''<embed'', ''<img'', ''<svg'']"

definition detectXSS :: "Unicode \<Rightarrow> string \<Rightarrow> bool" where
  "detectXSS U data =
     list_ex (\<lambda>pattern. strings_Contains (strings_ToLower U data) pattern) xssPatterns"

subsection \<open>Matching\<close>

definition Match :: "Unicode \<Rightarrow> Rule \<Rightarrow> string \<Rightarrow> bool" where
  "Match U r data =
     (if \<not> Enabled r then False
      else if Operator r = OpContains then strings_Contains data (Pattern r)
      else if Operator r = OpNotContains then \<not> strings_Contains data (Pattern r)
      else if Operator r = OpRegex then
        (case regex r of None \<Rightarrow> False | Some re \<Rightarrow> MatchString re data)
      else if Operator r = OpNotRegex then
        (case regex r of None \<Rightarrow> False | Some re \<Rightarrow> \<not> MatchString re data)
      else if Operator r = OpStartsWith then strings_HasPrefix data (Pattern r)
      else if Operator r = OpEndsWith then strings_HasSuffix data (Pattern r)
      else if Operator r = OpEquals then data = Pattern r
      else if Operator r = OpHighEntropy then calculateEntropy data > 4.0
      else if Operator r = OpSQLi then detectSQLi U data
      else if Operator r = OpXSS then detectXSS U data
      else False)"

section \<open>The engine (package waf)\<close>

text \<open>\<open>fmt.Sprintf\<close> with the verb \<open>%d\<close>: the decimal digits of an integer.\<close>

fun digits10 :: "nat \<Rightarrow> string" where
  "digits10 n = (if n < 10 then [''0123456789'' ! n]
                 else digits10 (n div 10) @ [''0123456789'' ! (n mod 10)])"

declare digits10.simps [simp del]

definition itoa :: "int \<Rightarrow> string" where
  "itoa i = (if i < 0 then CHR ''-'' # digits10 (nat (- i)) else digits10 (nat i))"

datatype Decision = DecisionAllow | DecisionBlock | DecisionLog

text \<open>
  What the engine and the proxy read of an \<open>http.Request\<close>. \<open>URL_Scheme\<close> and
  \<open>URL_Host\<close> are the scheme and host of \<open>r.URL\<close>: both empty when the request line
  names a path, as the request line of an ordinary client does, and filled in only when
  it names an absolute URL. \<open>Header\<close> is the header map, keys in canonical form, each
  with its values in order; \<open>Query\<close> is the value of \<open>r.URL.Query()\<close>, the decoded query
  parameters. (In a Go map every key occurs once; the association lists are read under
  that convention.) \<open>Body\<close> is what the body reader delivers, \<open>Inl\<close> when reading fails,
  \<open>None\<close> for a nil body.
\<close>

record Request =
  Method :: string
  RequestURI :: string
  URL_Scheme :: string
  URL_Host :: string
  Header :: "(string \<times> string list) list"
  Query :: "(string \<times> string list) list"
  Body :: "(string + string) option"
  ContentLength :: int
  RemoteAddr :: string

text \<open>
  \<open>Header.Get\<close>: the first value stored under the canonical form of the key, or the
  empty string; \<open>Header.Add\<close>: one more value under the canonical form of the key. The
  canonical form capitalises the first letter and every letter after a hyphen and lowers
  the others; a key with a byte that is no token character is left alone.
\<close>

definition validHeaderFieldByte :: "char \<Rightarrow> bool" where
  "validHeaderFieldByte c =
     (c \<in> set (ascii_lower @ ascii_upper @ ''0123456789'' @ ''!#$%&*+-.^_`|~'' @ [CHR 0x27]))"

fun canonical_case :: "bool \<Rightarrow> string \<Rightarrow> string" where
  "canonical_case upper [] = []"
| "canonical_case upper (c # cs) =
     (let c' = (if upper then upper_byte c else lower_byte c)
      in c' # canonical_case (c' = CHR ''-'') cs)"

definition CanonicalMIMEHeaderKey :: "string \<Rightarrow> string" where
  "CanonicalMIMEHeaderKey s = (if list_all validHeaderFieldByte s then canonical_case True s else s)"

definition Header_Get :: "(string \<times> string list) list \<Rightarrow> string \<Rightarrow> string" where
  "Header_Get h key =
     (case map_of h (CanonicalMIMEHeaderKey key) of
        None \<Rightarrow> []
      | Some [] \<Rightarrow> []
      | Some (v # _) \<Rightarrow> v)"

fun append_value :: "string \<Rightarrow> string \<Rightarrow> (string \<times> string list) list
                     \<Rightarrow> (string \<times> string list) list" where
  "append_value k v [] = [(k, [v])]"
| "append_value k v ((k', vs) # h) =
     (if k' = k then (k', vs @ [v]) # h else (k', vs) # append_value k v h)"

definition Header_Add :: "(string \<times> string list) list \<Rightarrow> string \<Rightarrow> string
                          \<Rightarrow> (string \<times> string list) list" where
  "Header_Add h key v = append_value (CanonicalMIMEHeaderKey key) v h"

text \<open>The engine holds the rules in insertion order; its configuration and logger play no
  part in a decision.\<close>

record Engine =
  rules :: "Rule list"

text \<open>\<open>checkRule\<close>, the cases of the switch in the order of the source.\<close>

definition checkRule :: "Unicode \<Rightarrow> Rule \<Rightarrow> Request \<Rightarrow> bool" where
  "checkRule U rule r =
     (if \<not> Enabled rule then False
      else if Target rule = ''REQUEST_URI'' then
        RequestURI r \<noteq> [] \<and> Match U rule (RequestURI r)
      else if Target rule = ''REQUEST_BODY'' then False
      else if strings_HasPrefix (Target rule) ''REQUEST_HEADERS:'' then
        (let data = Header_Get (Header r) (strings_TrimPrefix (Target rule) ''REQUEST_HEADERS:'')
         in data \<noteq> [] \<and> Match U rule data)
      else if Target rule = ''REQUEST_HEADERS'' then
        list_ex (\<lambda>(name, values). list_ex (Match U rule) values) (Header r)
      else if Target rule = ''ARGS'' then
        list_ex (\<lambda>(key, values). list_ex (Match U rule) values) (Query r)
      else False)"

text \<open>The patterns of the two default regex rules, backslashes written as \<open>CHR 0x5C\<close>.\<close>

definition path_traversal_pattern :: string where
  "path_traversal_pattern =
     [CHR 0x5C] @ ''.'' @ [CHR 0x5C] @ ''.[/'' @ [CHR 0x5C, CHR 0x5C] @ '']|''
     @ [CHR 0x5C] @ ''.'' @ [CHR 0x5C] @ ''..%2[fF]''"

definition command_injection_pattern :: string where
  "command_injection_pattern =
     ''[;&|'' @ [CHR 0x5C] @ ''n]['' @ [CHR 0x5C] @ ''s]*(cat|ls|rm|wget|curl|bash|sh|cmd|powershell)''"

definition defaultRules :: "Rule list" where
  "defaultRules =
     [\<lparr>ID = 1001, Name = ''SQL Injection - Common Patterns'',
       Description = ''Detects common SQL injection patterns'',
       Phase = PhaseRequestBody, Operator = OpSQLi, Pattern = '''', Target = ''REQUEST_BODY'',
       Action = ActionBlock, Severity = ''critical'', Enabled = True, regex = None\<rparr>,
      \<lparr>ID = 1002, Name = ''Cross-Site Scripting (XSS)'',
       Description = ''Detects common XSS patterns'',
       Phase = PhaseRequestBody, Operator = OpXSS, Pattern = '''', Target = ''REQUEST_BODY'',
       Action = ActionBlock, Severity = ''critical'', Enabled = True, regex = None\<rparr>,
      \<lparr>ID = 1003, Name = ''Path Traversal'',
       Description = ''Detects path traversal attempts'',
       Phase = PhaseRequestURI, Operator = OpRegex, Pattern = path_traversal_pattern,
       Target = ''REQUEST_URI'',
       Action = ActionBlock, Severity = ''high'', Enabled = True, regex = None\<rparr>,
      \<lparr>ID = 1004, Name = ''Command Injection'',
       Description = ''Detects command injection patterns'',
       Phase = PhaseRequestBody, Operator = OpRegex, Pattern = command_injection_pattern,
       Target = ''REQUEST_BODY'',
       Action = ActionBlock, Severity = ''critical'', Enabled = True, regex = None\<rparr>,
      \<lparr>ID = 1005, Name = ''Suspicious User-Agent'',
       Description = ''Blocks requests from suspicious user agents'',
       Phase = PhaseRequestHeaders, Operator = OpContains, Pattern = ''BadBot'',
       Target = ''REQUEST_HEADERS:User-Agent'',
       Action = ActionBlock, Severity = ''medium'', Enabled = True, regex = None\<rparr>,
      \<lparr>ID = 1006, Name = ''High Entropy Payload'',
       Description = ''Detects high entropy payloads (potential encoding/obfuscation)'',
       Phase = PhaseRequestBody, Operator = OpHighEntropy, Pattern = '''',
       Target = ''REQUEST_BODY'',
       Action = ActionLog, Severity = ''medium'', Enabled = True, regex = None\<rparr>]"

text \<open>\<open>addDefaultRules\<close>: a default rule that fails to compile is dropped with a warning.\<close>

definition addDefaultRules :: "(string \<Rightarrow> string + Regexp) \<Rightarrow> Engine \<Rightarrow> Engine" where
  "addDefaultRules rc e =
     foldl (\<lambda>e rule. case Compile rc rule of
                        Inl err \<Rightarrow> e
                      | Inr rule' \<Rightarrow> e\<lparr>rules := rules e @ [rule']\<rparr>)
           e defaultRules"

definition NewEngine :: "(string \<Rightarrow> string + Regexp) \<Rightarrow> Engine" where
  "NewEngine rc = addDefaultRules rc \<lparr>rules = []\<rparr>"

definition AddRule :: "(string \<Rightarrow> string + Regexp) \<Rightarrow> Rule \<Rightarrow> Engine \<Rightarrow> string + Engine" where
  "AddRule rc rule e =
     (case Compile rc rule of
        Inl err \<Rightarrow> Inl (''failed to compile rule: '' @ err)
      | Inr rule' \<Rightarrow> Inr (e\<lparr>rules := rules e @ [rule']\<rparr>))"

text \<open>
  \<open>Check\<close> runs the same loop three times, once per phase. \<open>checkPhase\<close> is that loop:
  \<open>None\<close> when it runs to its end, the returned pair when it leaves early.
\<close>

definition blockReason :: "Rule \<Rightarrow> string" where
  "blockReason rule = ''Rule '' @ itoa (ID rule) @ '': '' @ Name rule"

fun checkPhase :: "Unicode \<Rightarrow> RulePhase \<Rightarrow> Rule list \<Rightarrow> Request
                   \<Rightarrow> (Decision \<times> string) option" where
  "checkPhase U ph [] r = None"
| "checkPhase U ph (rule # rest) r =
     (if Phase rule \<noteq> ph then checkPhase U ph rest r
      else if checkRule U rule r then
        (if Action rule = ActionBlock then Some (DecisionBlock, blockReason rule)
         else checkPhase U ph rest r)
      else checkPhase U ph rest r)"

definition Check :: "Unicode \<Rightarrow> Engine \<Rightarrow> Request \<Rightarrow> Decision \<times> string" where
  "Check U e r =
     (case checkPhase U PhaseRequestHeaders (rules e) r of
        Some d \<Rightarrow> d
      | None \<Rightarrow>
          (case checkPhase U PhaseRequestURI (rules e) r of
             Some d \<Rightarrow> d
           | None \<Rightarrow>
               (case checkPhase U PhaseRequestBody (rules e) r of
                  Some d \<Rightarrow> d
                | None \<Rightarrow> (DecisionAllow, ''''))))"

text \<open>
  \<open>InterceptRequest\<close> (package proxy) buffers the body when there is one and the declared
  length is positive; the result is the interceptor's \<open>originalBody\<close> (empty when nothing
  was read), or the read error.
\<close>

definition InterceptRequest :: "Request \<Rightarrow> string + string" where
  "InterceptRequest r =
     (case Body r of
        None \<Rightarrow> Inr []
      | Some reader \<Rightarrow>
          (if ContentLength r > 0 then
             (case reader of Inl err \<Rightarrow> Inl err | Inr body \<Rightarrow> Inr body)
           else Inr []))"

subsection \<open>The decision in the words of the specification\<close>

text \<open>
  Target extraction as the specification lists it: the request URI, one header value (the
  first under the name), every header value, every decoded query value, and for
  \<open>REQUEST_BODY\<close> the buffered request body as a string, empty when the body could not be
  read. A selector for a single value yields data when the value is not empty; an unknown
  selector yields nothing. A rule matches a request when it is enabled and its matcher
  matches one of the data its target yields.
\<close>

definition buffered_body :: "Request \<Rightarrow> string" where
  "buffered_body r = (case InterceptRequest r of Inl err \<Rightarrow> [] | Inr body \<Rightarrow> body)"

definition one_value :: "string \<Rightarrow> string list" where
  "one_value v = (if v = [] then [] else [v])"

definition extract_target :: "string \<Rightarrow> Request \<Rightarrow> string list" where
  "extract_target target r =
     (if target = ''REQUEST_URI'' then one_value (RequestURI r)
      else if target = ''REQUEST_BODY'' then one_value (buffered_body r)
      else if prefix ''REQUEST_HEADERS:'' target then
        one_value (Header_Get (Header r) (drop (length ''REQUEST_HEADERS:'') target))
      else if target = ''REQUEST_HEADERS'' then concat (map snd (Header r))
      else if target = ''ARGS'' then concat (map snd (Query r))
      else [])"

definition rule_matches :: "Unicode \<Rightarrow> Request \<Rightarrow> Rule \<Rightarrow> bool" where
  "rule_matches U r rule =
     (Enabled rule \<and> list_ex (Match U rule) (extract_target (Target rule) r))"

text \<open>
  The evaluation order in the words of the specification: the rules of the headers phase,
  then those of the URI phase, then those of the body phase, each group in insertion
  order; the verdict is that of the first rule in this sequence that matches the request
  and whose action is block.
\<close>

definition blocks :: "Unicode \<Rightarrow> Request \<Rightarrow> Rule \<Rightarrow> bool" where
  "blocks U r rule = (rule_matches U r rule \<and> Action rule = ActionBlock)"

definition phase_order :: "Rule list \<Rightarrow> Rule list" where
  "phase_order rs =
     filter (\<lambda>rule. Phase rule = PhaseRequestHeaders) rs
     @ filter (\<lambda>rule. Phase rule = PhaseRequestURI) rs
     @ filter (\<lambda>rule. Phase rule = PhaseRequestBody) rs"

definition Check_spec :: "Unicode \<Rightarrow> Engine \<Rightarrow> Request \<Rightarrow> Decision \<times> string" where
  "Check_spec U e r =
     (case find (blocks U r) (phase_order (rules e)) of
        None \<Rightarrow> (DecisionAllow, '''')
      | Some rule \<Rightarrow> (DecisionBlock, blockReason rule))"

text \<open>
  \<open>regexp.Compile\<close> on the two patterns the default rules carry, each parsed by hand
  into its syntax tree (the escape for white space is the class of tab, newline, form feed,
  carriage return and space). It stands for the library wherever a default engine is run
  on a concrete request; the general results below hold for every compile function.
\<close>

definition lit :: "string \<Rightarrow> Regexp" where
  "lit s = foldr (\<lambda>c re. Seq (Class [of_char c]) re) s Eps"

definition path_traversal_re :: Regexp where
  "path_traversal_re =
     Alt (Seq (lit ''..'') (Class [47, 92]))
         (Seq (lit ''..'') (Seq AnyNotNL (Seq (lit ''%2'') (Class [102, 70]))))"

definition command_injection_re :: Regexp where
  "command_injection_re =
     Seq (Class [59, 38, 124, 10])
         (Seq (Star (Class [9, 10, 12, 13, 32]))
              (foldr Alt (map lit [''cat'', ''ls'', ''rm'', ''wget'', ''curl'', ''bash'', ''sh'',
                                   ''cmd'']) (lit ''powershell'')))"

definition default_patterns_Compile :: "string \<Rightarrow> string + Regexp" where
  "default_patterns_Compile p =
     (if p = path_traversal_pattern then Inr path_traversal_re
      else if p = command_injection_pattern then Inr command_injection_re
      else Inl ''pattern outside the table'')"

section \<open>The proxy (package proxy)\<close>

text \<open>
  The two runtime flags of the configuration, and the proxy with its engine. What the
  handler does is recorded as the list of its effects, in order: log lines of level error
  and block, the prompt on the terminal, every status and body written to the client, and
  the round trip to an upstream server, named by the scheme and host of the outgoing URL.
  (Debug log lines are left out.)
\<close>

record Config =
  DryRun :: bool
  Interactive :: bool

record Proxy =
  config :: Config
  wafEngine :: Engine

datatype Effect =
    LogError string
  | LogBlock string
  | Prompt string
  | WriteHeader nat
  | Write string
  | Upstream string string

text \<open>
  The reverse proxy as \<open>NewProxy\<close> sets it up. \<open>NewSingleHostReverseProxy\<close> installs a
  director that points the outgoing URL at the target; \<open>NewProxy\<close> then assigns
  \<open>rp.Director\<close> anew, and the director in force only adds three headers: it leaves the
  URL of the outgoing request as the server parsed it from the request line. The error
  handler logs the error and answers 502.
\<close>

definition Director :: "Request \<Rightarrow> Request" where
  "Director req =
     (let h1 = Header_Add (Header req) ''X-Forwarded-For'' (RemoteAddr req);
          h2 = Header_Add h1 ''X-Forwarded-Proto'' ''http'';
          h3 = Header_Add h2 ''X-Forwarded-Host'' (Header_Get h2 ''Host'')
      in req\<lparr>Header := h3\<rparr>)"

definition ErrorHandler :: "string \<Rightarrow> Effect list" where
  "ErrorHandler err = [LogError (''Proxy error: '' @ err), WriteHeader 502, Write ''Bad Gateway'']"

text \<open>
  \<open>ReverseProxy.ServeHTTP\<close> of the standard library, for a request that asks for no
  protocol upgrade: it runs the director on a copy of the request and hands the copy to
  the transport; an error of the transport goes to the error handler, a response is
  relayed to the client. The default transport refuses a URL whose scheme is neither
  \<open>http\<close> nor \<open>https\<close> before it opens any connection, with an error that quotes the
  scheme (\<open>quoted\<close>: a scheme has no character that needs an escape). For the other URLs
  the outcome of the round trip, an error text or the status and body of the response, is
  the parameter \<open>origin\<close>; it is read only after the check of the scheme.
\<close>

definition quoted :: "string \<Rightarrow> string" where
  "quoted s = [CHR 0x22] @ s @ [CHR 0x22]"

definition ServeHTTP :: "(Request \<Rightarrow> string + nat \<times> string) \<Rightarrow> Request \<Rightarrow> Effect list" where
  "ServeHTTP origin req =
     (let outreq = Director req in
      if URL_Scheme outreq \<noteq> ''http'' \<and> URL_Scheme outreq \<noteq> ''https'' then
        ErrorHandler (''unsupported protocol scheme '' @ quoted (URL_Scheme outreq))
      else
        Upstream (URL_Scheme outreq) (URL_Host outreq)
        # (case origin outreq of
             Inl err \<Rightarrow> ErrorHandler err
           | Inr (status, body) \<Rightarrow> [WriteHeader status, Write body]))"

text \<open>\<open>askUser\<close>: \<open>response\<close> is the token \<open>fmt.Scanln\<close> read from the terminal
  (empty when it read none).\<close>

definition askUser :: "string \<Rightarrow> string \<Rightarrow> bool" where
  "askUser reason response = (response = ''a'' \<or> response = ''A'')"

definition handleRequest :: "Unicode \<Rightarrow> (Request \<Rightarrow> string + nat \<times> string) \<Rightarrow> Proxy \<Rightarrow> string
                             \<Rightarrow> Request \<Rightarrow> Effect list" where
  "handleRequest U origin p response r =
     (let intercepted =
            (case InterceptRequest r of
               Inl err \<Rightarrow> [LogError (''Failed to intercept request: '' @ err)]
             | Inr body \<Rightarrow> []);
          (decision, reason) = Check U (wafEngine p) r
      in if decision = DecisionBlock then
           (if Interactive (config p) then
              (if \<not> askUser reason response then
                 intercepted @ [LogBlock (''Request blocked: '' @ reason), Prompt reason,
                                WriteHeader 403, Write ''Forbidden'']
               else
                 intercepted @ [LogBlock (''Request blocked: '' @ reason), Prompt reason]
                 @ ServeHTTP origin r)
            else if \<not> DryRun (config p) then
              intercepted @ [LogBlock (''Request blocked: '' @ reason),
                             WriteHeader 403, Write ''Forbidden'']
            else intercepted @ [LogBlock (''Request blocked: '' @ reason)] @ ServeHTTP origin r)
         else intercepted @ ServeHTTP origin r)"

text \<open>
  The outcome of a run of the handler as the client and the origin see it: the status
  lines and bodies written to the client, and whether an upstream server was called.
\<close>

definition statuses_written :: "Effect list \<Rightarrow> nat list" where
  "statuses_written tr = concat (map (\<lambda>ef. case ef of WriteHeader n \<Rightarrow> [n] | _ \<Rightarrow> []) tr)"

definition bodies_written :: "Effect list \<Rightarrow> string list" where
  "bodies_written tr = concat (map (\<lambda>ef. case ef of Write b \<Rightarrow> [b] | _ \<Rightarrow> []) tr)"

definition prompts :: "Effect list \<Rightarrow> string list" where
  "prompts tr = concat (map (\<lambda>ef. case ef of Prompt q \<Rightarrow> [q] | _ \<Rightarrow> []) tr)"

definition upstream_called :: "Effect list \<Rightarrow> bool" where
  "upstream_called tr = list_ex (\<lambda>ef. case ef of Upstream scheme host \<Rightarrow> True | _ \<Rightarrow> False) tr"

definition refused :: "Effect list \<Rightarrow> bool" where
  "refused tr =
     (statuses_written tr = [403] \<and> bodies_written tr = [''Forbidden''] \<and> \<not> upstream_called tr)"

section \<open>Example inputs\<close>

text \<open>Two rules and a request that both of them match; the rule of the later phase was
  inserted first. The request line of every example names a path, so the URL of the
  request has neither scheme nor host.\<close>

definition uri_rule :: Rule where
  "uri_rule = \<lparr>ID = 1, Name = ''uri'', Description = '''', Phase = PhaseRequestURI,
     Operator = OpContains, Pattern = ''admin'', Target = ''REQUEST_URI'',
     Action = ActionBlock, Severity = ''low'', Enabled = True, regex = None\<rparr>"

definition header_rule :: Rule where
  "header_rule = \<lparr>ID = 2, Name = ''agent'', Description = '''', Phase = PhaseRequestHeaders,
     Operator = OpContains, Pattern = ''BadBot'', Target = ''REQUEST_HEADERS:user-agent'',
     Action = ActionBlock, Severity = ''low'', Enabled = True, regex = None\<rparr>"

definition both_request :: Request where
  "both_request = \<lparr>Method = ''GET'', RequestURI = ''/admin'', URL_Scheme = '''', URL_Host = '''',
     Header = [(''User-Agent'', [''BadBot/1.0''])], Query = [], Body = None,
     ContentLength = 0, RemoteAddr = ''10.0.0.1:4000''\<rparr>"

text \<open>The SQL injection requests of the testing guide: the query-string one and the
  form post.\<close>

definition sqli_get_request :: Request where
  "sqli_get_request = \<lparr>Method = ''GET'', RequestURI = ''/?id=1' OR '1'='1'',
     URL_Scheme = '''', URL_Host = '''',
     Header = [(''User-Agent'', [''curl/8.5.0'']), (''Accept'', [''*/*''])],
     Query = [(''id'', [''1' OR '1'='1''])], Body = None,
     ContentLength = 0, RemoteAddr = ''127.0.0.1:51000''\<rparr>"

text \<open>The same request with the blanks of the query percent-encoded, as a client has to
  send it; the query values are the decoded ones.\<close>

definition sqli_get_request_encoded :: Request where
  "sqli_get_request_encoded = \<lparr>Method = ''GET'', RequestURI = ''/?id=1'%20OR%20'1'='1'',
     URL_Scheme = '''', URL_Host = '''',
     Header = [(''User-Agent'', [''curl/8.5.0'']), (''Accept'', [''*/*''])],
     Query = [(''id'', [''1' OR '1'='1''])], Body = None,
     ContentLength = 0, RemoteAddr = ''127.0.0.1:51000''\<rparr>"

definition sqli_post_body :: string where
  "sqli_post_body = ''username=admin' OR 1=1--&password=anything''"

definition sqli_post_request :: Request where
  "sqli_post_request = \<lparr>Method = ''POST'', RequestURI = ''/api/data'',
     URL_Scheme = '''', URL_Host = '''',
     Header = [(''User-Agent'', [''curl/8.5.0'']), (''Accept'', [''*/*'']),
               (''Content-Type'', [''application/x-www-form-urlencoded'']),
               (''Content-Length'', [''42''])],
     Query = [], Body = Some (Inr sqli_post_body),
     ContentLength = 42, RemoteAddr = ''127.0.0.1:51000''\<rparr>"

text \<open>A form post whose body carries a script element, and the request of the testing
  guide with the user agent the default rule 1005 blocks.\<close>

definition xss_post_body :: string where
  "xss_post_body = ''comment=<script>alert(1)</script>''"

definition xss_post_request :: Request where
  "xss_post_request = \<lparr>Method = ''POST'', RequestURI = ''/api/comments'',
     URL_Scheme = '''', URL_Host = '''',
     Header = [(''User-Agent'', [''curl/8.5.0'']), (''Accept'', [''*/*'']),
               (''Content-Type'', [''application/x-www-form-urlencoded'']),
               (''Content-Length'', [''33''])],
     Query = [], Body = Some (Inr xss_post_body),
     ContentLength = 33, RemoteAddr = ''127.0.0.1:51000''\<rparr>"

definition badbot_request :: Request where
  "badbot_request = \<lparr>Method = ''GET'', RequestURI = ''/'', URL_Scheme = '''', URL_Host = '''',
     Header = [(''User-Agent'', [''BadBot'']), (''Accept'', [''*/*''])],
     Query = [], Body = None,
     ContentLength = 0, RemoteAddr = ''127.0.0.1:51000''\<rparr>"

definition enforce_config :: Config where
  "enforce_config = \<lparr>DryRun = False, Interactive = False\<rparr>"

definition dry_run_config :: Config where
  "dry_run_config = \<lparr>DryRun = True, Interactive = False\<rparr>"

definition interactive_config :: Config where
  "interactive_config = \<lparr>DryRun = False, Interactive = True\<rparr>"

definition dry_run_interactive_config :: Config where
  "dry_run_interactive_config = \<lparr>DryRun = True, Interactive = True\<rparr>"

text \<open>A custom rule that reuses the identifier of a default rule.\<close>

definition duplicate_rule :: Rule where
  "duplicate_rule = \<lparr>ID = 1001, Name = ''Admin area'', Description = '''',
     Phase = PhaseRequestURI, Operator = OpStartsWith, Pattern = ''/admin'',
     Target = ''REQUEST_URI'', Action = ActionBlock, Severity = ''low'', Enabled = True,
     regex = None\<rparr>"

definition two_rule_engine :: Engine where
  "two_rule_engine = \<lparr>rules = [uri_rule, header_rule]\<rparr>"

section \<open>Containment up to letter case\<close>

text \<open>
  The match condition of the two detectors in the words of the specification: the input
  has a substring that is the term up to the case of its letters. Two bytes are the same
  letter when they are equal or the lower-case and upper-case form of one ASCII letter.
\<close>

definition same_letter :: "char \<Rightarrow> char \<Rightarrow> bool" where
  "same_letter a b =
     (a = b \<or> (a, b) \<in> set (zip ascii_lower ascii_upper)
            \<or> (b, a) \<in> set (zip ascii_lower ascii_upper))"

definition contains_ignoring_case :: "string \<Rightarrow> string \<Rightarrow> bool" where
  "contains_ignoring_case s t = list_ex (\<lambda>u. list_all2 same_letter u t) (sublists s)"

text \<open>Inputs with a letter beyond ASCII: \<open>UN\<close>, the dotless i (bytes \<open>C4 B1\<close>), \<open>ON SELECT\<close>;
  and \<open>onclic\<close>, the Kelvin sign (bytes \<open>E2 84 AA\<close>), \<open>=1\<close>.\<close>

definition dotless_union_select :: string where
  "dotless_union_select = ''UN'' @ [CHR 0xC4, CHR 0xB1] @ ''ON SELECT''"

definition kelvin_onclick :: string where
  "kelvin_onclick = ''onclic'' @ [CHR 0xE2, CHR 0x84, CHR 0xAA] @ ''=1''"

section \<open>The efficacy analyser (package analysis)\<close>

subsection \<open>Floating point numbers\<close>

text \<open>
  A \<open>float64\<close> is a finite value, an infinity or a NaN. A finite value is kept as the
  real number it denotes; the sign of a zero is not kept (the analyser never divides by a
  zero and never prints one). \<open>round64\<close> is the rounding every operation ends with: to
  the nearest number with a 53-bit significand, a tie to the one with an even significand,
  on the grid of the subnormal numbers below \<open>2 ^ -1022\<close>, and to infinity when the
  rounded value reaches \<open>2 ^ 1024\<close>. \<open>binade x\<close> is the exponent of \<open>x\<close>.
\<close>

datatype float64 = Finite real | PosInf | NegInf | NaN

definition round_half_even :: "real \<Rightarrow> int" where
  "round_half_even x =
     (let f = \<lfloor>x\<rfloor> in
      if x - of_int f < 1 / 2 then f
      else if x - of_int f > 1 / 2 then f + 1
      else if even f then f else f + 1)"

definition binade :: "real \<Rightarrow> int" where
  "binade x = max \<lfloor>log 2 \<bar>x\<bar>\<rfloor> (- 1022)"

definition round64 :: "real \<Rightarrow> float64" where
  "round64 x =
     (if x = 0 then Finite 0
      else
        (let q = 2 powr (of_int (binade x) - 52);
             y = of_int (round_half_even (x / q)) * q
         in if 2 ^ 1024 \<le> y then PosInf
            else if y \<le> - (2 ^ 1024) then NegInf
            else Finite y))"

text \<open>The operations of the language on \<open>float64\<close> values that the analyser uses.\<close>

fun fneg :: "float64 \<Rightarrow> float64" where
  "fneg (Finite a) = Finite (- a)"
| "fneg PosInf = NegInf"
| "fneg NegInf = PosInf"
| "fneg NaN = NaN"

fun fadd :: "float64 \<Rightarrow> float64 \<Rightarrow> float64" where
  "fadd (Finite a) (Finite b) = round64 (a + b)"
| "fadd (Finite a) PosInf = PosInf"
| "fadd (Finite a) NegInf = NegInf"
| "fadd PosInf (Finite b) = PosInf"
| "fadd PosInf PosInf = PosInf"
| "fadd NegInf (Finite b) = NegInf"
| "fadd NegInf NegInf = NegInf"
| "fadd PosInf NegInf = NaN"
| "fadd NegInf PosInf = NaN"
| "fadd NaN b = NaN"
| "fadd a NaN = NaN"

definition fsub :: "float64 \<Rightarrow> float64 \<Rightarrow> float64" where
  "fsub a b = fadd a (fneg b)"

definition infinity_of_sign :: "bool \<Rightarrow> float64" where
  "infinity_of_sign negative = (if negative then NegInf else PosInf)"

fun fmul :: "float64 \<Rightarrow> float64 \<Rightarrow> float64" where
  "fmul (Finite a) (Finite b) = round64 (a * b)"
| "fmul (Finite a) PosInf = (if a = 0 then NaN else infinity_of_sign (a < 0))"
| "fmul (Finite a) NegInf = (if a = 0 then NaN else infinity_of_sign (0 < a))"
| "fmul PosInf (Finite b) = (if b = 0 then NaN else infinity_of_sign (b < 0))"
| "fmul NegInf (Finite b) = (if b = 0 then NaN else infinity_of_sign (0 < b))"
| "fmul PosInf PosInf = PosInf"
| "fmul PosInf NegInf = NegInf"
| "fmul NegInf PosInf = NegInf"
| "fmul NegInf NegInf = PosInf"
| "fmul NaN b = NaN"
| "fmul a NaN = NaN"

fun fdiv :: "float64 \<Rightarrow> float64 \<Rightarrow> float64" where
  "fdiv (Finite a) (Finite b) =
     (if b = 0 then (if a = 0 then NaN else infinity_of_sign (a < 0))
      else round64 (a / b))"
| "fdiv (Finite a) PosInf = Finite 0"
| "fdiv (Finite a) NegInf = Finite 0"
| "fdiv PosInf (Finite b) = infinity_of_sign (b < 0)"
| "fdiv NegInf (Finite b) = infinity_of_sign (0 \<le> b)"
| "fdiv PosInf PosInf = NaN"
| "fdiv PosInf NegInf = NaN"
| "fdiv NegInf PosInf = NaN"
| "fdiv NegInf NegInf = NaN"
| "fdiv NaN b = NaN"
| "fdiv a NaN = NaN"

fun fless :: "float64 \<Rightarrow> float64 \<Rightarrow> bool" where
  "fless (Finite a) (Finite b) = (a < b)"
| "fless (Finite a) PosInf = True"
| "fless NegInf (Finite b) = True"
| "fless NegInf PosInf = True"
| "fless a b = False"

text \<open>The conversion \<open>float64(n)\<close> of an integer, and a constant of the source text, which
  the compiler rounds from its exact value.\<close>

definition float64_of_int :: "int \<Rightarrow> float64" where
  "float64_of_int n = round64 (of_int n)"

definition float64_const :: "real \<Rightarrow> float64" where
  "float64_const x = round64 x"

definition MaxFloat64 :: float64 where
  "MaxFloat64 = Finite ((2 - 1 / 2 ^ 52) * 2 ^ 1023)"

text \<open>
  \<open>fmt.Sprintf\<close> with the verb \<open>%.Nf\<close>: the exact value of the number with \<open>d\<close> digits
  after the point, the last one rounded to nearest with ties to even.
\<close>

definition fmt_fixed :: "nat \<Rightarrow> real \<Rightarrow> string" where
  "fmt_fixed d x =
     (let n = round_half_even (\<bar>x\<bar> * 10 ^ d);
          frac = digits10 (nat (n mod 10 ^ d))
      in (if x < 0 then ''-'' else '''') @ digits10 (nat (n div 10 ^ d))
         @ (if d = 0 then ''''
            else ''.'' @ replicate (d - length frac) CHR ''0'' @ frac))"

fun fmt_float :: "nat \<Rightarrow> float64 \<Rightarrow> string" where
  "fmt_float d (Finite x) = fmt_fixed d x"
| "fmt_float d PosInf = ''+Inf''"
| "fmt_float d NegInf = ''-Inf''"
| "fmt_float d NaN = ''NaN''"

subsection \<open>Events and metrics\<close>

text \<open>
  An event is a \<open>map[string]interface{}\<close>: a partial map from field names to dynamically
  typed values. \<open>JOther\<close> stands for every dynamic type the analyser never asserts
  (nested arrays and objects). The \<open>int64\<close> counters are \<open>int\<close> (a batch held in memory
  cannot overflow them).
\<close>

datatype jvalue = JNull | JBool bool | JNumber float64 | JString string | JOther

type_synonym Event = "string \<Rightarrow> jvalue option"

text \<open>The fields of \<open>RuleMetrics\<close> that the counts, the ratios and the recommendations
  use; the collected attack patterns, the top addresses and URLs and the time stamps are
  left out.\<close>

record RuleMetrics =
  RuleID :: string
  RuleName :: string
  TotalTriggers :: int
  TruePositives :: int
  FalsePositives :: int
  TrueNegatives :: int
  FalseNegatives :: int
  Precision :: float64
  Recall :: float64
  F1Score :: float64
  Specificity :: float64
  Accuracy :: float64
  AvgLatencyMs :: float64
  MaxLatencyMs :: float64
  MinLatencyMs :: float64
  BlockRate :: float64
  Recommendations :: "string list"

text \<open>The state of the loop over the events of one rule: the metrics under construction
  and the three local latency variables.\<close>

record Accum =
  metrics :: RuleMetrics
  totalLatency :: float64
  minLatency :: float64
  maxLatency :: float64

definition initial_metrics :: "string \<Rightarrow> Event list \<Rightarrow> RuleMetrics" where
  "initial_metrics ruleID events =
     \<lparr>RuleID = ruleID, RuleName = '''', TotalTriggers = int (length events),
      TruePositives = 0, FalsePositives = 0, TrueNegatives = 0, FalseNegatives = 0,
      Precision = Finite 0, Recall = Finite 0, F1Score = Finite 0, Specificity = Finite 0,
      Accuracy = Finite 0, AvgLatencyMs = Finite 0, MaxLatencyMs = Finite 0,
      MinLatencyMs = Finite 0, BlockRate = Finite 0, Recommendations = []\<rparr>"

definition count_blocked :: "Accum \<Rightarrow> Event \<Rightarrow> Accum" where
  "count_blocked a event =
     (case event ''blocked'' of
        Some (JBool True) \<Rightarrow>
          a\<lparr>metrics := (metrics a)\<lparr>TruePositives := TruePositives (metrics a) + 1\<rparr>\<rparr>
      | _ \<Rightarrow>
          a\<lparr>metrics := (metrics a)\<lparr>FalsePositives := FalsePositives (metrics a) + 1\<rparr>\<rparr>)"

definition track_latency :: "Accum \<Rightarrow> Event \<Rightarrow> Accum" where
  "track_latency a event =
     (case event ''response_time_ms'' of
        Some (JNumber latency) \<Rightarrow>
          a\<lparr>totalLatency := fadd (totalLatency a) latency,
            minLatency := (if fless latency (minLatency a) then latency else minLatency a),
            maxLatency := (if fless (maxLatency a) latency then latency else maxLatency a)\<rparr>
      | _ \<Rightarrow> a)"

definition track_name :: "Accum \<Rightarrow> Event \<Rightarrow> Accum" where
  "track_name a event =
     (case event ''rule_name'' of
        Some (JString ruleName) \<Rightarrow> a\<lparr>metrics := (metrics a)\<lparr>RuleName := ruleName\<rparr>\<rparr>
      | _ \<Rightarrow> a)"

text \<open>The body of the loop: the three steps in the order of the source.\<close>

definition count_event :: "Accum \<Rightarrow> Event \<Rightarrow> Accum" where
  "count_event a event = track_name (track_latency (count_blocked a event) event) event"

text \<open>After the loop: the averages, then precision, recall, F1 and the block rate, each
  assigned only when its guard holds, in the order of the source.\<close>

definition set_latencies :: "Event list \<Rightarrow> Accum \<Rightarrow> RuleMetrics" where
  "set_latencies events a =
     (if length events > 0 then
        (metrics a)\<lparr>AvgLatencyMs := fdiv (totalLatency a) (float64_of_int (int (length events))),
                    MinLatencyMs := (if minLatency a \<noteq> MaxFloat64 then minLatency a
                                     else MinLatencyMs (metrics a)),
                    MaxLatencyMs := maxLatency a\<rparr>
      else metrics a)"

definition set_precision :: "RuleMetrics \<Rightarrow> RuleMetrics" where
  "set_precision m =
     (if TruePositives m + FalsePositives m > 0 then
        m\<lparr>Precision := fdiv (float64_of_int (TruePositives m))
                              (float64_of_int (TruePositives m + FalsePositives m))\<rparr>
      else m)"

definition set_recall :: "RuleMetrics \<Rightarrow> RuleMetrics" where
  "set_recall m =
     (if TruePositives m + FalseNegatives m > 0 then
        m\<lparr>Recall := fdiv (float64_of_int (TruePositives m))
                           (float64_of_int (TruePositives m + FalseNegatives m))\<rparr>
      else m)"

definition set_f1 :: "RuleMetrics \<Rightarrow> RuleMetrics" where
  "set_f1 m =
     (if fless (Finite 0) (fadd (Precision m) (Recall m)) then
        m\<lparr>F1Score := fdiv (fmul (Finite 2) (fmul (Precision m) (Recall m)))
                            (fadd (Precision m) (Recall m))\<rparr>
      else m)"

definition set_block_rate :: "RuleMetrics \<Rightarrow> RuleMetrics" where
  "set_block_rate m =
     (if TotalTriggers m > 0 then
        m\<lparr>BlockRate := fmul (fdiv (float64_of_int (TruePositives m))
                                    (float64_of_int (TotalTriggers m)))
                              (Finite 100)\<rparr>
      else m)"

definition derive_metrics :: "Event list \<Rightarrow> Accum \<Rightarrow> RuleMetrics" where
  "derive_metrics events a =
     set_block_rate (set_f1 (set_recall (set_precision (set_latencies events a))))"

definition calculateRuleMetrics :: "string \<Rightarrow> Event list \<Rightarrow> RuleMetrics" where
  "calculateRuleMetrics ruleID events =
     derive_metrics events
       (foldl count_event
          \<lparr>metrics = initial_metrics ruleID events, totalLatency = Finite 0,
           minLatency = MaxFloat64, maxLatency = Finite 0\<rparr>
          events)"

text \<open>\<open>generateRecommendations\<close>: the five tests in the order of the source. The constants
  5, 50, 95, 100, 1 and 2 are \<open>float64\<close> values as they stand; 0.8 and 0.7 are rounded.\<close>

definition generateRecommendations :: "RuleMetrics \<Rightarrow> string list" where
  "generateRecommendations m =
     (if FalsePositives m > 0 \<and> fless (Precision m) (float64_const 0.8) then
        [''High false positive rate (''
         @ fmt_float 1 (fmul (fsub (Finite 1) (Precision m)) (Finite 100))
         @ ''%). Consider tuning rule sensitivity or adding whitelists.'']
      else [])
     @ (if fless (Recall m) (float64_const 0.7) \<and> fless (Finite 0) (Recall m) then
          [''Low recall rate ('' @ fmt_float 1 (fmul (Recall m) (Finite 100))
           @ ''%). Rule may be missing attack variants. Consider expanding patterns.'']
        else [])
     @ (if fless (Finite 5) (AvgLatencyMs m) then
          [''High average latency ('' @ fmt_float 2 (AvgLatencyMs m)
           @ ''ms). Consider optimizing rule patterns for better performance.'']
        else [])
     @ (if fless (BlockRate m) (Finite 50) \<and> TotalTriggers m > 100 then
          [''Low block rate suggests many false positives. Review and refine rule patterns.'']
        else [])
     @ (if fless (Finite 95) (BlockRate m) \<and> TotalTriggers m > 100 then
          [''Very high block rate. Verify this is intentional and not over-blocking legitimate traffic.'']
        else [])"

text \<open>
  The analyser: the events added so far and the metrics of the last analysis.
  \<open>AnalyzeRules\<close> first groups the events by rule identifier (\<open>ruleEvents\<close>; a key is
  present in the Go map exactly when its slice is not empty), then stores the metrics of
  every group. The groups have different keys, so the order in which Go walks the map
  does not matter.
\<close>

record EfficacyAnalyzer =
  events :: "Event list"
  ruleMetrics :: "string \<Rightarrow> RuleMetrics option"

definition AddEvent :: "Event \<Rightarrow> EfficacyAnalyzer \<Rightarrow> EfficacyAnalyzer" where
  "AddEvent event ea = ea\<lparr>events := events ea @ [event]\<rparr>"

definition group_event :: "(string \<Rightarrow> Event list) \<Rightarrow> Event \<Rightarrow> (string \<Rightarrow> Event list)" where
  "group_event ruleEvents event =
     (case event ''rule_id'' of
        Some (JString ruleID) \<Rightarrow>
          (if ruleID = [] then ruleEvents
           else ruleEvents(ruleID := ruleEvents ruleID @ [event]))
      | _ \<Rightarrow> ruleEvents)"

definition AnalyzeRules :: "EfficacyAnalyzer \<Rightarrow> EfficacyAnalyzer" where
  "AnalyzeRules ea =
     (let ruleEvents = foldl group_event (\<lambda>ruleID. []) (events ea)
      in ea\<lparr>ruleMetrics :=
              (\<lambda>ruleID.
                 if ruleEvents ruleID = [] then ruleMetrics ea ruleID
                 else Some ((calculateRuleMetrics ruleID (ruleEvents ruleID))
                        \<lparr>Recommendations :=
                           generateRecommendations
                             (calculateRuleMetrics ruleID (ruleEvents ruleID))\<rparr>))\<rparr>)"

text \<open>
  The classification in the words of the specification: an event is attributed to a rule
  when its \<open>rule_id\<close> is that rule's non-empty identifier, and it is blocked when its
  \<open>blocked\<close> flag is the boolean true.
\<close>

definition attributed :: "string \<Rightarrow> Event \<Rightarrow> bool" where
  "attributed ruleID event = (ruleID \<noteq> [] \<and> event ''rule_id'' = Some (JString ruleID))"

definition is_blocked :: "Event \<Rightarrow> bool" where
  "is_blocked event = (event ''blocked'' = Some (JBool True))"

definition high_false_positive_advice :: "string \<Rightarrow> bool" where
  "high_false_positive_advice s = prefix ''High false positive rate'' s"

text \<open>The running sum of the response times a batch carries, as the loop of
  \<open>calculateRuleMetrics\<close> forms it: the events without a number in \<open>response_time_ms\<close>
  add nothing.\<close>

definition add_latency :: "float64 \<Rightarrow> Event \<Rightarrow> float64" where
  "add_latency acc event =
     (case event ''response_time_ms'' of
        Some (JNumber latency) \<Rightarrow> fadd acc latency
      | _ \<Rightarrow> acc)"

definition latency_sum :: "Event list \<Rightarrow> float64" where
  "latency_sum evs = foldl add_latency (Finite 0) evs"

definition has_latency :: "Event \<Rightarrow> bool" where
  "has_latency event =
     (case event ''response_time_ms'' of Some (JNumber latency) \<Rightarrow> True | _ \<Rightarrow> False)"

text \<open>Example events: one with a rule identifier and a blocked flag only, and one that
  also carries a response time.\<close>

definition event_of :: "string \<Rightarrow> bool \<Rightarrow> Event" where
  "event_of ruleID blocked = [''rule_id'' \<mapsto> JString ruleID, ''blocked'' \<mapsto> JBool blocked]"

definition timed_event_of :: "string \<Rightarrow> bool \<Rightarrow> float64 \<Rightarrow> Event" where
  "timed_event_of ruleID blocked ms =
     [''rule_id'' \<mapsto> JString ruleID, ''blocked'' \<mapsto> JBool blocked,
      ''response_time_ms'' \<mapsto> JNumber ms]"

definition five_events :: "Event list" where
  "five_events =
     [event_of ''1001'' True, event_of ''1001'' True, event_of ''1001'' False,
      event_of ''1001'' True, event_of ''1001'' True]"

definition five_timed_events :: "Event list" where
  "five_timed_events =
     [timed_event_of ''1001'' True (Finite 12), timed_event_of ''1001'' True (Finite 9),
      timed_event_of ''1001'' False (Finite 14), timed_event_of ''1001'' True (Finite 8),
      timed_event_of ''1001'' True (Finite 7)]"

text \<open>Five events whose response times are 5 ms four times and the next \<open>float64\<close> above
  5 once: their exact mean is above 5.\<close>

definition boundary_timed_events :: "Event list" where
  "boundary_timed_events =
     [timed_event_of ''1001'' True (Finite 5), timed_event_of ''1001'' True (Finite 5),
      timed_event_of ''1001'' False (Finite 5), timed_event_of ''1001'' True (Finite 5),
      timed_event_of ''1001'' True (Finite (5 + 1 / 2 ^ 50))]"

definition unattributed_event :: Event where
  "unattributed_event = [''blocked'' \<mapsto> JBool False, ''url'' \<mapsto> JString ''/api/data'']"

section \<open>Example strings for the entropy\<close>

text \<open>The two bytes \<open>C3 A9\<close> encode the letter e with acute accent (code point 233);
  a lone \<open>A9\<close> is a stray continuation byte.\<close>

definition stray_then_e_acute :: string where
  "stray_then_e_acute = [CHR 0xA9, CHR 0xC3, CHR 0xA9]"

definition e_acute_twice :: string where
  "e_acute_twice = [CHR 0xC3, CHR 0xA9, CHR 0xC3, CHR 0xA9]"

section \<open>Results\<close>

lemmas const_defs =
  ActionBlock_def ActionLog_def ActionPass_def
  PhaseRequestHeaders_def PhaseRequestURI_def PhaseRequestBody_def
  PhaseResponseHeaders_def PhaseResponseBody_def
  OpContains_def OpRegex_def OpStartsWith_def OpEndsWith_def OpEquals_def
  OpNotContains_def OpNotRegex_def OpHighEntropy_def OpSQLi_def OpXSS_def

lemmas string_defs =
  strings_Contains_def strings_HasPrefix_def strings_HasSuffix_def strings_TrimPrefix_def
  upper_byte_def lower_byte_def ascii_lower_def ascii_upper_def sublist_code

subsection \<open>Strings of ASCII bytes\<close>

text \<open>On a string of ASCII bytes every rune is one byte, and the case mappings change the
  letters byte by byte, whatever the tables of the library hold.\<close>

lemma isASCII_iff: "isASCII s \<longleftrightarrow> (\<forall>c\<in>set s. (of_char c :: nat) < 128)"
  by (simp add: isASCII_def list_all_iff)

lemma decoderune_ascii: "(of_char c :: nat) < 128 \<Longrightarrow> decoderune (c # cs) = (of_char c, 1)"
  by (simp add: Let_def)

lemma runes_ascii:
  "\<forall>c\<in>set s. (of_char c :: nat) < 128 \<Longrightarrow> runes s = map of_char s"
  unfolding runes_def by (induction s) (simp_all add: decoderune_ascii del: decoderune.simps)

lemma ToUpper_ascii: "isASCII s \<Longrightarrow> strings_ToUpper U s = map upper_byte s"
  by (simp add: strings_ToUpper_def)

lemma ToLower_ascii: "isASCII s \<Longrightarrow> strings_ToLower U s = map lower_byte s"
  by (simp add: strings_ToLower_def)

lemma MatchString_ascii: "isASCII s \<Longrightarrow> MatchString re s = match_runes re (map of_char s)"
  by (simp add: MatchString_def runes_ascii isASCII_iff)

lemma sqlPatterns_ascii: "list_all isASCII sqlPatterns"
  by (simp add: sqlPatterns_def isASCII_def)

lemma detectSQLi_ascii:
  "isASCII s \<Longrightarrow>
   detectSQLi U s = list_ex (\<lambda>t. sublist (map upper_byte t) (map upper_byte s)) sqlPatterns"
proof -
  assume s: "isASCII s"
  have "\<forall>t\<in>set sqlPatterns. strings_ToUpper U t = map upper_byte t"
    using sqlPatterns_ascii by (auto simp: list_all_iff ToUpper_ascii)
  then show ?thesis
    by (simp add: detectSQLi_def strings_Contains_def ToUpper_ascii [OF s] list_ex_iff)
qed

lemma detectXSS_ascii:
  "isASCII s \<Longrightarrow> detectXSS U s = list_ex (\<lambda>t. sublist t (map lower_byte s)) xssPatterns"
  by (simp add: detectXSS_def strings_Contains_def ToLower_ascii)

text \<open>
  C10. A rule whose operator is regex or not-regex and whose compiled pattern is absent
  matches no input at all, whatever its other fields are; a not-regex rule in that state
  stays silent although no pattern matched the input.
\<close>

theorem Match_uncompiled_regex:
  assumes "Operator r = OpRegex \<or> Operator r = OpNotRegex"
    and "regex r = None"
  shows "\<not> Match U r data"
  using assms by (auto simp: Match_def const_defs)

theorem Match_uncompiled_regex_witness:
  "Operator \<lparr>ID = 7, Name = ''n'', Description = '''', Phase = PhaseRequestURI,
             Operator = OpNotRegex, Pattern = ''^/admin'', Target = ''REQUEST_URI'',
             Action = ActionBlock, Severity = ''low'', Enabled = True, regex = None\<rparr>
     = OpNotRegex
   \<and> \<not> Match listed_unicode
        \<lparr>ID = 7, Name = ''n'', Description = '''', Phase = PhaseRequestURI,
             Operator = OpNotRegex, Pattern = ''^/admin'', Target = ''REQUEST_URI'',
             Action = ActionBlock, Severity = ''low'', Enabled = True, regex = None\<rparr>
        ''/index.html''"
  using Match_uncompiled_regex
    [of "\<lparr>ID = 7, Name = ''n'', Description = '''', Phase = PhaseRequestURI,
          Operator = OpNotRegex, Pattern = ''^/admin'', Target = ''REQUEST_URI'',
          Action = ActionBlock, Severity = ''low'', Enabled = True, regex = None\<rparr>"
        listed_unicode "''/index.html''"]
  by simp

subsection \<open>Rule identifiers\<close>

lemma Compile_ID: "Compile rc rule = Inr rule' \<Longrightarrow> ID rule' = ID rule"
  by (auto simp: Compile_def split: if_splits sum.splits)

lemma addDefaultRules_ids:
  "map ID (rules (foldl (\<lambda>e rule. case Compile rc rule of
                        Inl err \<Rightarrow> e
                      | Inr rule' \<Rightarrow> e\<lparr>rules := rules e @ [rule']\<rparr>) e rs))
   = map ID (rules e) @ map ID (filter (\<lambda>rule. \<not> isl (Compile rc rule)) rs)"
proof (induction rs arbitrary: e)
  case Nil
  show ?case by simp
next
  case (Cons rule rs)
  show ?case
  proof (cases "Compile rc rule")
    case (Inl err)
    then show ?thesis using Cons.IH [of e] by simp
  next
    case (Inr rule')
    then show ?thesis
      using Cons.IH [of "e\<lparr>rules := rules e @ [rule']\<rparr>"] Compile_ID [OF Inr] by simp
  qed
qed

lemma defaultRules_ids: "map ID defaultRules = [1001, 1002, 1003, 1004, 1005, 1006]"
  by (simp add: defaultRules_def)

lemma NewEngine_ids_distinct: "distinct (map ID (rules (NewEngine rc)))"
proof -
  have "distinct (map ID defaultRules)"
    by (simp add: defaultRules_ids)
  then have "distinct (map ID (filter (\<lambda>rule. \<not> isl (Compile rc rule)) defaultRules))"
    by (rule distinct_map_filter)
  then show ?thesis
    by (simp add: NewEngine_def addDefaultRules_def addDefaultRules_ids)
qed

lemma AddRule_ids:
  "AddRule rc rule e = Inr e' \<Longrightarrow> map ID (rules e') = map ID (rules e) @ [ID rule]"
  by (auto simp: AddRule_def split: sum.splits dest: Compile_ID)

text \<open>
  C9 (as the code has it). The identifiers of the default rules an engine starts with are
  pairwise distinct, whichever of them compile. \<open>AddRule\<close> appends the compiled rule
  without looking at its identifier: after an admission the identifiers are pairwise
  distinct exactly when they were so before and the new rule's identifier is not yet held.
\<close>

theorem rule_ids_after_admission:
  "distinct (map ID (rules (NewEngine rc)))
   \<and> (\<forall>e'. AddRule rc rule e = Inr e' \<longrightarrow>
          map ID (rules e') = map ID (rules e) @ [ID rule]
          \<and> (distinct (map ID (rules e'))
               \<longleftrightarrow> distinct (map ID (rules e)) \<and> ID rule \<notin> set (map ID (rules e))))"
  using NewEngine_ids_distinct [of rc] AddRule_ids [of rc rule e] by auto

text \<open>Evaluation of the default engine under the hand-parsed patterns.\<close>

lemmas re_defs = path_traversal_re_def command_injection_re_def lit_def
  path_traversal_pattern_def command_injection_pattern_def default_patterns_Compile_def

lemma default_engine_rules:
  "rules (NewEngine default_patterns_Compile) =
     map (\<lambda>r. if ID r = 1003 then r\<lparr>regex := Some path_traversal_re\<rparr>
               else if ID r = 1004 then r\<lparr>regex := Some command_injection_re\<rparr> else r)
         defaultRules"
  by (simp add: NewEngine_def addDefaultRules_def defaultRules_def Compile_def const_defs
        default_patterns_Compile_def path_traversal_pattern_def command_injection_pattern_def)

lemma AddRule_duplicate:
  "AddRule default_patterns_Compile duplicate_rule (NewEngine default_patterns_Compile)
     = Inr \<lparr>rules = rules (NewEngine default_patterns_Compile) @ [duplicate_rule]\<rparr>"
  by (simp add: AddRule_def Compile_def duplicate_rule_def const_defs)

text \<open>
  Uniqueness as an invariant of every sequence of admissions fails: admitting a custom
  rule numbered 1001 to a fresh engine succeeds and leaves two rules with that identifier.
\<close>

theorem duplicate_rule_id_counterexample:
  "AddRule default_patterns_Compile duplicate_rule (NewEngine default_patterns_Compile)
     = Inr \<lparr>rules = rules (NewEngine default_patterns_Compile) @ [duplicate_rule]\<rparr>
   \<and> map ID (rules \<lparr>rules = rules (NewEngine default_patterns_Compile) @ [duplicate_rule]\<rparr>)
     = [1001, 1002, 1003, 1004, 1005, 1006, 1001]
   \<and> \<not> distinct (map ID
          (rules \<lparr>rules = rules (NewEngine default_patterns_Compile) @ [duplicate_rule]\<rparr>))"
proof -
  have ids: "map ID (rules (NewEngine default_patterns_Compile)) = [1001, 1002, 1003, 1004, 1005, 1006]"
    by (simp add: default_engine_rules defaultRules_def)
  have dup: "ID duplicate_rule = 1001"
    by (simp add: duplicate_rule_def)
  show ?thesis
    using AddRule_duplicate by (simp add: ids dup)
qed

theorem rule_ids_after_admission_witness:
  "AddRule default_patterns_Compile uri_rule (NewEngine default_patterns_Compile)
     = Inr \<lparr>rules = rules (NewEngine default_patterns_Compile) @ [uri_rule]\<rparr>
   \<and> map ID (rules \<lparr>rules = rules (NewEngine default_patterns_Compile) @ [uri_rule]\<rparr>)
     = [1001, 1002, 1003, 1004, 1005, 1006, 1]
   \<and> distinct (map ID (rules \<lparr>rules = rules (NewEngine default_patterns_Compile) @ [uri_rule]\<rparr>))"
proof -
  have ids: "map ID (rules (NewEngine default_patterns_Compile)) = [1001, 1002, 1003, 1004, 1005, 1006]"
    by (simp add: default_engine_rules defaultRules_def)
  have a: "AddRule default_patterns_Compile uri_rule (NewEngine default_patterns_Compile)
     = Inr \<lparr>rules = rules (NewEngine default_patterns_Compile) @ [uri_rule]\<rparr>"
    by (simp add: AddRule_def Compile_def uri_rule_def const_defs)
  have i: "ID uri_rule = 1"
    by (simp add: uri_rule_def)
  from rule_ids_after_admission [of default_patterns_Compile uri_rule "NewEngine default_patterns_Compile"] a
  have "distinct (map ID (rules \<lparr>rules = rules (NewEngine default_patterns_Compile) @ [uri_rule]\<rparr>))
        \<longleftrightarrow> distinct (map ID (rules (NewEngine default_patterns_Compile)))
            \<and> ID uri_rule \<notin> set (map ID (rules (NewEngine default_patterns_Compile)))"
    by blast
  then show ?thesis using a by (simp add: ids i)
qed

subsection \<open>Rules that target the request body\<close>

lemma checkRule_REQUEST_BODY: "Target rule = ''REQUEST_BODY'' \<Longrightarrow> \<not> checkRule U rule r"
  by (simp add: checkRule_def)

lemma canonical_user_agent: "CanonicalMIMEHeaderKey ''user-agent'' = ''User-Agent''"
  by (simp add: CanonicalMIMEHeaderKey_def validHeaderFieldByte_def string_defs Let_def)

lemma canonical_User_Agent: "CanonicalMIMEHeaderKey ''User-Agent'' = ''User-Agent''"
  by (simp add: CanonicalMIMEHeaderKey_def validHeaderFieldByte_def string_defs Let_def)

lemma no_traversal_get: "\<not> MatchString path_traversal_re (RequestURI sqli_get_request)"
  by (simp add: sqli_get_request_def MatchString_ascii isASCII_def re_defs)

lemma no_traversal_get_encoded:
  "\<not> MatchString path_traversal_re (RequestURI sqli_get_request_encoded)"
  by (simp add: sqli_get_request_encoded_def MatchString_ascii isASCII_def re_defs)

lemma no_traversal_post: "\<not> MatchString path_traversal_re (RequestURI sqli_post_request)"
  by (simp add: sqli_post_request_def MatchString_ascii isASCII_def re_defs)

lemma no_traversal_xss_post: "\<not> MatchString path_traversal_re (RequestURI xss_post_request)"
  by (simp add: xss_post_request_def MatchString_ascii isASCII_def re_defs)

lemma no_badbot: "\<not> strings_Contains ''curl/8.5.0'' ''BadBot''"
  by (simp add: string_defs)

lemma get_ua: "Header_Get (Header sqli_get_request) ''User-Agent'' = ''curl/8.5.0''"
  by (simp add: Header_Get_def canonical_User_Agent sqli_get_request_def)

lemma get_encoded_ua:
  "Header_Get (Header sqli_get_request_encoded) ''User-Agent'' = ''curl/8.5.0''"
  by (simp add: Header_Get_def canonical_User_Agent sqli_get_request_encoded_def)

lemma post_ua: "Header_Get (Header sqli_post_request) ''User-Agent'' = ''curl/8.5.0''"
  by (simp add: Header_Get_def canonical_User_Agent sqli_post_request_def)

lemma xss_post_ua: "Header_Get (Header xss_post_request) ''User-Agent'' = ''curl/8.5.0''"
  by (simp add: Header_Get_def canonical_User_Agent xss_post_request_def)

lemma Check_default_get:
  "Check U (NewEngine default_patterns_Compile) sqli_get_request = (DecisionAllow, '''')"
  using no_traversal_get no_badbot
  by (simp add: Check_def default_engine_rules defaultRules_def checkRule_def Match_def const_defs
        get_ua strings_HasPrefix_def strings_TrimPrefix_def)

lemma Check_default_get_encoded:
  "Check U (NewEngine default_patterns_Compile) sqli_get_request_encoded = (DecisionAllow, '''')"
  using no_traversal_get_encoded no_badbot
  by (simp add: Check_def default_engine_rules defaultRules_def checkRule_def Match_def const_defs
        get_encoded_ua strings_HasPrefix_def strings_TrimPrefix_def)

lemma Check_default_post:
  "Check U (NewEngine default_patterns_Compile) sqli_post_request = (DecisionAllow, '''')"
  using no_traversal_post no_badbot
  by (simp add: Check_def default_engine_rules defaultRules_def checkRule_def Match_def const_defs
        post_ua strings_HasPrefix_def strings_TrimPrefix_def)

lemma Check_default_xss_post:
  "Check U (NewEngine default_patterns_Compile) xss_post_request = (DecisionAllow, '''')"
  using no_traversal_xss_post no_badbot
  by (simp add: Check_def default_engine_rules defaultRules_def checkRule_def Match_def const_defs
        xss_post_ua strings_HasPrefix_def strings_TrimPrefix_def)

lemma detectSQLi_get: "detectSQLi U ''1' OR '1'='1''"
  by (simp add: detectSQLi_ascii isASCII_def sqlPatterns_def string_defs)

lemma detectSQLi_post: "detectSQLi U sqli_post_body"
  by (simp add: detectSQLi_ascii isASCII_def sqlPatterns_def string_defs sqli_post_body_def)

text \<open>
  C1 (the code at a failing input). The form post of the testing guide carries a body
  that the interceptor buffers and that the SQL injection rule 1001 matches as a string;
  the rule is enabled, of the body phase, targets \<open>REQUEST_BODY\<close> and blocks. Yet
  \<open>checkRule\<close> answers false for it without reading the body, and \<open>Check\<close> allows
  the request.
\<close>

theorem body_rule_skipped:
  "InterceptRequest sqli_post_request = Inr sqli_post_body
   \<and> sqli_post_body \<noteq> []
   \<and> Match U (hd (rules (NewEngine default_patterns_Compile))) sqli_post_body
   \<and> Enabled (hd (rules (NewEngine default_patterns_Compile)))
   \<and> Phase (hd (rules (NewEngine default_patterns_Compile))) = PhaseRequestBody
   \<and> Target (hd (rules (NewEngine default_patterns_Compile))) = ''REQUEST_BODY''
   \<and> Action (hd (rules (NewEngine default_patterns_Compile))) = ActionBlock
   \<and> \<not> checkRule U (hd (rules (NewEngine default_patterns_Compile))) sqli_post_request
   \<and> Check U (NewEngine default_patterns_Compile) sqli_post_request = (DecisionAllow, '''')"
proof -
  have hd: "hd (rules (NewEngine default_patterns_Compile)) = hd defaultRules"
    by (simp add: default_engine_rules defaultRules_def)
  have i: "InterceptRequest sqli_post_request = Inr sqli_post_body"
    by (simp add: InterceptRequest_def sqli_post_request_def)
  have m: "Match U (hd defaultRules) sqli_post_body"
    using detectSQLi_post [of U] by (simp add: defaultRules_def Match_def const_defs)
  have ne: "sqli_post_body \<noteq> []"
    by (simp add: sqli_post_body_def)
  have c: "\<not> checkRule U (hd defaultRules) sqli_post_request"
    by (rule checkRule_REQUEST_BODY) (simp add: defaultRules_def)
  show ?thesis
    using i m ne c Check_default_post [of U]
    by (simp add: hd) (simp add: defaultRules_def const_defs)
qed

subsection \<open>The order of evaluation\<close>

lemma find_append_cases:
  "find P (xs @ ys) = (case find P xs of None \<Rightarrow> find P ys | Some x \<Rightarrow> Some x)"
  by (induction xs) auto

lemma list_ex_concat: "list_ex P (concat xss) = list_ex (list_ex P) xss"
  by (induction xss) auto

lemma list_ex_one_value: "list_ex P (one_value v) = (v \<noteq> [] \<and> P v)"
  by (simp add: one_value_def)

text \<open>Apart from the body, \<open>checkRule\<close> reads the data the specification lists.\<close>

lemma checkRule_rule_matches:
  assumes "Target rule \<noteq> ''REQUEST_BODY''"
  shows "checkRule U rule r = rule_matches U r rule"
proof -
  have "list_ex (\<lambda>(name, values). list_ex (Match U rule) values) h
          = list_ex (Match U rule) (concat (map snd h))" for h :: "(string \<times> string list) list"
    by (induction h) auto
  then show ?thesis
    using assms
    by (simp add: checkRule_def rule_matches_def extract_target_def list_ex_one_value
          strings_HasPrefix_def strings_TrimPrefix_def Let_def)
qed

lemma checkPhase_find:
  assumes "\<forall>rule\<in>set rs. Target rule \<noteq> ''REQUEST_BODY''"
  shows "checkPhase U ph rs r =
     map_option (\<lambda>rule. (DecisionBlock, blockReason rule))
       (find (blocks U r) (filter (\<lambda>rule. Phase rule = ph) rs))"
  using assms by (induction rs) (auto simp: blocks_def checkRule_rule_matches)

text \<open>
  Where no rule targets the request body, \<open>Check\<close> is the verdict of the first rule, in
  the order headers phase, URI phase, body phase and insertion order within a phase, that
  matches the request and has action block.
\<close>

lemma Check_without_body_targets:
  assumes "\<forall>rule\<in>set (rules e). Target rule \<noteq> ''REQUEST_BODY''"
  shows "Check U e r = Check_spec U e r"
  by (auto simp: Check_def Check_spec_def phase_order_def checkPhase_find [OF assms]
        find_append_cases split: option.splits)

lemma blocks_header_rule: "blocks U both_request header_rule"
  by (simp add: blocks_def rule_matches_def extract_target_def one_value_def header_rule_def
        both_request_def Match_def const_defs Header_Get_def canonical_user_agent string_defs)

lemma blocks_uri_rule: "blocks U both_request uri_rule"
  by (simp add: blocks_def rule_matches_def extract_target_def one_value_def uri_rule_def
        both_request_def Match_def const_defs string_defs)

lemma blockReason_header_rule: "blockReason header_rule = ''Rule 2: agent''"
  by (simp add: blockReason_def header_rule_def itoa_def digits10.simps)

lemma Check_two_rule_engine:
  "Check U two_rule_engine both_request = (DecisionBlock, ''Rule 2: agent'')"
proof -
  have t: "\<forall>rule\<in>set (rules two_rule_engine). Target rule \<noteq> ''REQUEST_BODY''"
    by (simp add: two_rule_engine_def uri_rule_def header_rule_def)
  have ph: "Phase uri_rule \<noteq> PhaseRequestHeaders" "Phase header_rule = PhaseRequestHeaders"
    by (simp_all add: uri_rule_def header_rule_def const_defs)
  show ?thesis
    unfolding Check_without_body_targets [OF t]
    by (simp add: Check_spec_def phase_order_def two_rule_engine_def ph blocks_header_rule
          blockReason_header_rule)
qed

lemma detectXSS_post: "detectXSS U xss_post_body"
  by (simp add: detectXSS_ascii isASCII_def xssPatterns_def string_defs xss_post_body_def)

lemma not_detectSQLi_xss_post: "\<not> detectSQLi U xss_post_body"
  by (simp add: detectSQLi_ascii isASCII_def sqlPatterns_def string_defs xss_post_body_def)

lemma buffered_xss_post: "buffered_body xss_post_request = xss_post_body"
  by (simp add: buffered_body_def InterceptRequest_def xss_post_request_def)

lemma blockReason_1002:
  "blockReason (defaultRules ! 1) = ''Rule 1002: Cross-Site Scripting (XSS)''"
  by (simp add: blockReason_def defaultRules_def itoa_def digits10.simps)

text \<open>
  C3 (the code at a failing input). A form post whose body carries a script element,
  checked by the default engine. In the order headers phase, URI phase, body phase, the
  first rule whose target yields data, whose matcher matches and whose action is block is
  rule 1002: its target \<open>REQUEST_BODY\<close> yields the buffered body, the XSS matcher matches
  it, and neither the rule on the user agent, nor the one on path traversal, nor rule
  1001 of the body phase matches. The verdict in the words of the specification is
  \<open>(Block, "Rule 1002: Cross-Site Scripting (XSS)")\<close>; the third pass of \<open>Check\<close> finds
  no match, because \<open>checkRule\<close> answers false for every rule that targets the body, and
  \<open>Check\<close> returns \<open>(Allow, "")\<close>.
\<close>

theorem first_blocking_rule_not_returned:
  "extract_target (Target (defaultRules ! 1)) xss_post_request = [xss_post_body]
   \<and> Match U (defaultRules ! 1) xss_post_body
   \<and> Action (defaultRules ! 1) = ActionBlock
   \<and> find (blocks U xss_post_request) (phase_order (rules (NewEngine default_patterns_Compile)))
       = Some (defaultRules ! 1)
   \<and> Check_spec U (NewEngine default_patterns_Compile) xss_post_request
       = (DecisionBlock, ''Rule 1002: Cross-Site Scripting (XSS)'')
   \<and> Check U (NewEngine default_patterns_Compile) xss_post_request = (DecisionAllow, '''')"
proof -
  have x: "extract_target (Target (defaultRules ! 1)) xss_post_request = [xss_post_body]"
    by (simp add: defaultRules_def extract_target_def one_value_def buffered_xss_post)
       (simp add: xss_post_body_def)
  have m: "Match U (defaultRules ! 1) xss_post_body"
    using detectXSS_post [of U] by (simp add: defaultRules_def Match_def const_defs)
  have a: "Action (defaultRules ! 1) = ActionBlock"
    by (simp add: defaultRules_def)
  have b5: "\<not> blocks U xss_post_request (defaultRules ! 4)"
    using no_badbot
    by (simp add: blocks_def rule_matches_def extract_target_def one_value_def defaultRules_def
          xss_post_ua Match_def const_defs)
  have b3: "\<not> blocks U xss_post_request ((defaultRules ! 2)\<lparr>regex := Some path_traversal_re\<rparr>)"
    using no_traversal_xss_post
    by (simp add: blocks_def rule_matches_def extract_target_def one_value_def defaultRules_def
          Match_def const_defs)
  have b1: "\<not> blocks U xss_post_request (defaultRules ! 0)"
    using not_detectSQLi_xss_post [of U]
    by (simp add: blocks_def rule_matches_def extract_target_def one_value_def defaultRules_def
          buffered_xss_post Match_def const_defs)
  have b2: "blocks U xss_post_request (defaultRules ! 1)"
    using x m a by (simp add: blocks_def rule_matches_def) (simp add: defaultRules_def)
  have order: "phase_order (rules (NewEngine default_patterns_Compile))
      = [defaultRules ! 4, (defaultRules ! 2)\<lparr>regex := Some path_traversal_re\<rparr>,
         defaultRules ! 0, defaultRules ! 1,
         (defaultRules ! 3)\<lparr>regex := Some command_injection_re\<rparr>, defaultRules ! 5]"
    by (simp add: phase_order_def default_engine_rules defaultRules_def const_defs)
  have f: "find (blocks U xss_post_request)
             (phase_order (rules (NewEngine default_patterns_Compile)))
           = Some (defaultRules ! 1)"
    unfolding order using b5 b3 b1 b2 by simp
  have s: "Check_spec U (NewEngine default_patterns_Compile) xss_post_request
       = (DecisionBlock, ''Rule 1002: Cross-Site Scripting (XSS)'')"
    using blockReason_1002 by (simp add: Check_spec_def f)
  from x m a f s Check_default_xss_post [of U] show ?thesis by simp
qed

text \<open>
  C2 (the code at the failing input). In enforce mode with the default rules the request
  \<open>GET /?id=1' OR '1'='1\<close> is allowed: rule 1001 targets the body and is skipped, the
  path traversal rule does not match the URI and no other default rule reads the URI or
  the query, although rule 1001 matches the query value as a string. The handler writes
  no 403 and hands the request to the reverse proxy, whose answer is 502; so it does when
  the blanks of the URI are percent-encoded.
\<close>

theorem sqli_query_forwarded:
  "Check U (NewEngine default_patterns_Compile) sqli_get_request = (DecisionAllow, '''')
   \<and> handleRequest U origin
        \<lparr>config = enforce_config, wafEngine = NewEngine default_patterns_Compile\<rparr>
        '''' sqli_get_request = ServeHTTP origin sqli_get_request
   \<and> ServeHTTP origin sqli_get_request
        = [LogError (''Proxy error: unsupported protocol scheme '' @ [CHR 0x22, CHR 0x22]),
           WriteHeader 502, Write ''Bad Gateway'']
   \<and> \<not> refused (handleRequest U origin
          \<lparr>config = enforce_config, wafEngine = NewEngine default_patterns_Compile\<rparr>
          '''' sqli_get_request)
   \<and> Check U (NewEngine default_patterns_Compile) sqli_get_request_encoded = (DecisionAllow, '''')
   \<and> handleRequest U origin
        \<lparr>config = enforce_config, wafEngine = NewEngine default_patterns_Compile\<rparr>
        '''' sqli_get_request_encoded = ServeHTTP origin sqli_get_request_encoded
   \<and> ServeHTTP origin sqli_get_request_encoded
        = [LogError (''Proxy error: unsupported protocol scheme '' @ [CHR 0x22, CHR 0x22]),
           WriteHeader 502, Write ''Bad Gateway'']
   \<and> Match U (hd (rules (NewEngine default_patterns_Compile))) ''1' OR '1'='1''"
proof -
  have i: "InterceptRequest sqli_get_request = Inr []"
    "InterceptRequest sqli_get_request_encoded = Inr []"
    by (simp_all add: InterceptRequest_def sqli_get_request_def sqli_get_request_encoded_def)
  have h: "handleRequest U origin
        \<lparr>config = enforce_config, wafEngine = NewEngine default_patterns_Compile\<rparr>
        '''' sqli_get_request = ServeHTTP origin sqli_get_request"
    by (simp add: handleRequest_def i Check_default_get)
  have h': "handleRequest U origin
        \<lparr>config = enforce_config, wafEngine = NewEngine default_patterns_Compile\<rparr>
        '''' sqli_get_request_encoded = ServeHTTP origin sqli_get_request_encoded"
    by (simp add: handleRequest_def i Check_default_get_encoded)
  have s: "ServeHTTP origin sqli_get_request
        = [LogError (''Proxy error: unsupported protocol scheme '' @ [CHR 0x22, CHR 0x22]),
           WriteHeader 502, Write ''Bad Gateway'']"
    by (simp add: ServeHTTP_def Director_def ErrorHandler_def quoted_def Let_def
          sqli_get_request_def)
  have s': "ServeHTTP origin sqli_get_request_encoded
        = [LogError (''Proxy error: unsupported protocol scheme '' @ [CHR 0x22, CHR 0x22]),
           WriteHeader 502, Write ''Bad Gateway'']"
    by (simp add: ServeHTTP_def Director_def ErrorHandler_def quoted_def Let_def
          sqli_get_request_encoded_def)
  have m: "Match U (hd (rules (NewEngine default_patterns_Compile))) ''1' OR '1'='1''"
    using detectSQLi_get [of U]
    by (simp add: default_engine_rules defaultRules_def Match_def const_defs)
  have r: "\<not> refused (handleRequest U origin
          \<lparr>config = enforce_config, wafEngine = NewEngine default_patterns_Compile\<rparr>
          '''' sqli_get_request)"
    unfolding h s by (simp add: refused_def statuses_written_def)
  from Check_default_get [of U] Check_default_get_encoded [of U] h h' s s' m r
  show ?thesis by blast
qed

subsection \<open>The mode policy of the proxy\<close>

lemmas trace_defs = refused_def upstream_called_def statuses_written_def
  bodies_written_def prompts_def

lemma intercepted_cases:
  "(case InterceptRequest r of Inl err \<Rightarrow> [LogError (''Failed to intercept request: '' @ err)]
     | Inr body \<Rightarrow> []) = [] \<or>
   (\<exists>m. (case InterceptRequest r of Inl err \<Rightarrow> [LogError (''Failed to intercept request: '' @ err)]
     | Inr body \<Rightarrow> []) = [LogError m])"
  by (cases "InterceptRequest r") auto

text \<open>
  What the handler itself does on a Block decision, up to the call of the reverse proxy:
  with neither flag it answers 403 with body \<open>Forbidden\<close> and calls nobody; with the
  interactive flag, whatever the dry-run flag, it prompts the operator and answers 403 on
  every answer but \<open>a\<close> and \<open>A\<close>, on which it goes on to the reverse proxy; with the
  dry-run flag alone it goes on to the reverse proxy, having written nothing.
\<close>

lemma handleRequest_enforce:
  assumes "fst (Check U (wafEngine p) r) = DecisionBlock"
    and "\<not> DryRun (config p)" and "\<not> Interactive (config p)"
  shows "refused (handleRequest U origin p response r)"
    and "prompts (handleRequest U origin p response r) = []"
  using assms intercepted_cases [of r]
  by (cases "Check U (wafEngine p) r";
      auto simp: handleRequest_def trace_defs Let_def split: sum.splits)+

lemma handleRequest_interactive_denied:
  assumes "fst (Check U (wafEngine p) r) = DecisionBlock"
    and "Interactive (config p)" and "response \<noteq> ''a''" and "response \<noteq> ''A''"
  shows "refused (handleRequest U origin p response r)"
    and "prompts (handleRequest U origin p response r) = [snd (Check U (wafEngine p) r)]"
  using assms intercepted_cases [of r]
  by (cases "Check U (wafEngine p) r";
      auto simp: handleRequest_def askUser_def trace_defs Let_def split: sum.splits)+

lemma handleRequest_interactive_approved:
  assumes "fst (Check U (wafEngine p) r) = DecisionBlock"
    and "Interactive (config p)" and "response = ''a'' \<or> response = ''A''"
  shows "\<exists>pre. handleRequest U origin p response r = pre @ ServeHTTP origin r
           \<and> prompts pre = [snd (Check U (wafEngine p) r)] \<and> statuses_written pre = []"
  using assms intercepted_cases [of r]
  by (cases "Check U (wafEngine p) r";
      auto simp: handleRequest_def askUser_def trace_defs Let_def split: sum.splits)

lemma handleRequest_dry_run:
  assumes "DryRun (config p)" and "\<not> Interactive (config p)"
  shows "\<exists>pre. handleRequest U origin p response r = pre @ ServeHTTP origin r
           \<and> prompts pre = [] \<and> statuses_written pre = []"
  using assms intercepted_cases [of r]
  by (cases "Check U (wafEngine p) r";
      auto simp: handleRequest_def trace_defs Let_def split: sum.splits)

text \<open>The reverse proxy on a request whose URL has no scheme, as the URL of every request
  has whose request line names a path: the answer is 502 and no server is called.\<close>

lemma ServeHTTP_without_scheme:
  assumes "URL_Scheme r \<noteq> ''http''" and "URL_Scheme r \<noteq> ''https''"
  shows "ServeHTTP origin r
           = [LogError (''Proxy error: unsupported protocol scheme '' @ quoted (URL_Scheme r)),
              WriteHeader 502, Write ''Bad Gateway'']"
  using assms by (simp add: ServeHTTP_def Director_def ErrorHandler_def Let_def)

lemma badbot_ua: "Header_Get (Header badbot_request) ''User-Agent'' = ''BadBot''"
  by (simp add: Header_Get_def canonical_User_Agent badbot_request_def)

lemma Check_default_badbot:
  "Check U (NewEngine default_patterns_Compile) badbot_request
     = (DecisionBlock, ''Rule 1005: Suspicious User-Agent'')"
  by (simp add: Check_def default_engine_rules defaultRules_def checkRule_def Match_def const_defs
        badbot_ua strings_HasPrefix_def strings_TrimPrefix_def strings_Contains_def
        blockReason_def itoa_def digits10.simps)

lemma ServeHTTP_badbot:
  "ServeHTTP origin badbot_request
     = [LogError (''Proxy error: unsupported protocol scheme '' @ [CHR 0x22, CHR 0x22]),
        WriteHeader 502, Write ''Bad Gateway'']"
  by (simp add: ServeHTTP_without_scheme badbot_request_def quoted_def)

text \<open>
  C4 (the code at a failing input). The request of the testing guide with the user agent
  \<open>BadBot\<close>, on which the default engine decides Block by rule 1005. In enforce mode the
  handler answers 403 with body \<open>Forbidden\<close> and calls no server, as claimed. In dry-run
  mode the request is not forwarded to the origin: the reverse proxy, whose director
  \<open>NewProxy\<close> has replaced, keeps the URL without scheme and host, the transport refuses
  it, and the client gets 502 with body \<open>Bad Gateway\<close>; no server is called, whatever
  the origin would answer. In interactive mode the operator is prompted; the answer \<open>a\<close>
  does not admit the request to the origin either, it ends in the same 502. With both
  flags set the handler prompts, and on the answer \<open>d\<close> it answers 403 although the
  dry-run flag is set.
\<close>

theorem forwarding_ends_in_bad_gateway:
  "Check U (NewEngine default_patterns_Compile) badbot_request
     = (DecisionBlock, ''Rule 1005: Suspicious User-Agent'')
   \<and> handleRequest U origin
        \<lparr>config = enforce_config, wafEngine = NewEngine default_patterns_Compile\<rparr>
        response badbot_request
       = [LogBlock ''Request blocked: Rule 1005: Suspicious User-Agent'',
          WriteHeader 403, Write ''Forbidden'']
   \<and> handleRequest U origin
        \<lparr>config = dry_run_config, wafEngine = NewEngine default_patterns_Compile\<rparr>
        response badbot_request
       = [LogBlock ''Request blocked: Rule 1005: Suspicious User-Agent'',
          LogError (''Proxy error: unsupported protocol scheme '' @ [CHR 0x22, CHR 0x22]),
          WriteHeader 502, Write ''Bad Gateway'']
   \<and> \<not> upstream_called (handleRequest U origin
          \<lparr>config = dry_run_config, wafEngine = NewEngine default_patterns_Compile\<rparr>
          response badbot_request)
   \<and> handleRequest U origin
        \<lparr>config = interactive_config, wafEngine = NewEngine default_patterns_Compile\<rparr>
        ''a'' badbot_request
       = [LogBlock ''Request blocked: Rule 1005: Suspicious User-Agent'',
          Prompt ''Rule 1005: Suspicious User-Agent'',
          LogError (''Proxy error: unsupported protocol scheme '' @ [CHR 0x22, CHR 0x22]),
          WriteHeader 502, Write ''Bad Gateway'']
   \<and> handleRequest U origin
        \<lparr>config = interactive_config, wafEngine = NewEngine default_patterns_Compile\<rparr>
        ''d'' badbot_request
       = [LogBlock ''Request blocked: Rule 1005: Suspicious User-Agent'',
          Prompt ''Rule 1005: Suspicious User-Agent'',
          WriteHeader 403, Write ''Forbidden'']
   \<and> handleRequest U origin
        \<lparr>config = dry_run_interactive_config, wafEngine = NewEngine default_patterns_Compile\<rparr>
        ''d'' badbot_request
       = [LogBlock ''Request blocked: Rule 1005: Suspicious User-Agent'',
          Prompt ''Rule 1005: Suspicious User-Agent'',
          WriteHeader 403, Write ''Forbidden'']"
proof -
  have i: "InterceptRequest badbot_request = Inr []"
    by (simp add: InterceptRequest_def badbot_request_def)
  have 1: "handleRequest U origin
        \<lparr>config = enforce_config, wafEngine = NewEngine default_patterns_Compile\<rparr>
        response badbot_request
       = [LogBlock ''Request blocked: Rule 1005: Suspicious User-Agent'',
          WriteHeader 403, Write ''Forbidden'']"
    by (simp add: handleRequest_def i Check_default_badbot enforce_config_def)
  have 2: "handleRequest U origin
        \<lparr>config = dry_run_config, wafEngine = NewEngine default_patterns_Compile\<rparr>
        response badbot_request
       = [LogBlock ''Request blocked: Rule 1005: Suspicious User-Agent'',
          LogError (''Proxy error: unsupported protocol scheme '' @ [CHR 0x22, CHR 0x22]),
          WriteHeader 502, Write ''Bad Gateway'']"
    by (simp add: handleRequest_def i Check_default_badbot dry_run_config_def ServeHTTP_badbot)
  have 3: "\<not> upstream_called (handleRequest U origin
          \<lparr>config = dry_run_config, wafEngine = NewEngine default_patterns_Compile\<rparr>
          response badbot_request)"
    unfolding 2 by (simp add: upstream_called_def)
  have 4: "handleRequest U origin
        \<lparr>config = interactive_config, wafEngine = NewEngine default_patterns_Compile\<rparr>
        ''a'' badbot_request
       = [LogBlock ''Request blocked: Rule 1005: Suspicious User-Agent'',
          Prompt ''Rule 1005: Suspicious User-Agent'',
          LogError (''Proxy error: unsupported protocol scheme '' @ [CHR 0x22, CHR 0x22]),
          WriteHeader 502, Write ''Bad Gateway'']"
    by (simp add: handleRequest_def i Check_default_badbot interactive_config_def askUser_def
          ServeHTTP_badbot)
  have 5: "handleRequest U origin
        \<lparr>config = interactive_config, wafEngine = NewEngine default_patterns_Compile\<rparr>
        ''d'' badbot_request
       = [LogBlock ''Request blocked: Rule 1005: Suspicious User-Agent'',
          Prompt ''Rule 1005: Suspicious User-Agent'',
          WriteHeader 403, Write ''Forbidden'']"
    by (simp add: handleRequest_def i Check_default_badbot interactive_config_def askUser_def)
  have 6: "handleRequest U origin
        \<lparr>config = dry_run_interactive_config, wafEngine = NewEngine default_patterns_Compile\<rparr>
        ''d'' badbot_request
       = [LogBlock ''Request blocked: Rule 1005: Suspicious User-Agent'',
          Prompt ''Rule 1005: Suspicious User-Agent'',
          WriteHeader 403, Write ''Forbidden'']"
    by (simp add: handleRequest_def i Check_default_badbot dry_run_interactive_config_def
          askUser_def)
  from Check_default_badbot [of U] 1 2 3 4 5 6 show ?thesis by blast
qed

subsection \<open>The SQL injection and XSS detectors\<close>

lemma zip_table_eq_iff:
  assumes d1: "distinct xs" and d2: "distinct ys" and len: "length xs = length ys"
    and disj: "set xs \<inter> set ys = {}"
  shows "(case map_of (zip xs ys) a of Some u \<Rightarrow> u | None \<Rightarrow> a)
           = (case map_of (zip xs ys) b of Some u \<Rightarrow> u | None \<Rightarrow> b)
         \<longleftrightarrow> a = b \<or> (a, b) \<in> set (zip xs ys) \<or> (b, a) \<in> set (zip xs ys)"
proof -
  have dz: "distinct (map fst (zip xs ys))"
    using d1 len by simp
  have some: "\<And>c u. map_of (zip xs ys) c = Some u \<longleftrightarrow> (c, u) \<in> set (zip xs ys)"
    using dz by (rule map_of_eq_Some_iff)
  have none: "\<And>c. map_of (zip xs ys) c = None \<longleftrightarrow> c \<notin> set xs"
    using len by (rule map_of_zip_is_None)
  have left: "\<And>c u. (c, u) \<in> set (zip xs ys) \<Longrightarrow> c \<in> set xs \<and> u \<in> set ys"
    by (auto dest: set_zip_leftD set_zip_rightD)
  have inj: "\<And>c d u. (c, u) \<in> set (zip xs ys) \<Longrightarrow> (d, u) \<in> set (zip xs ys) \<Longrightarrow> c = d"
  proof -
    fix c d u
    assume "(c, u) \<in> set (zip xs ys)" "(d, u) \<in> set (zip xs ys)"
    then obtain i j where i: "i < length ys" "xs ! i = c" "ys ! i = u"
      and j: "j < length ys" "xs ! j = d" "ys ! j = u"
      using len by (auto simp: in_set_zip)
    then have "i = j"
      using nth_eq_iff_index_eq [OF d2, of i j] by simp
    with i j show "c = d" by simp
  qed
  show ?thesis
  proof (cases "map_of (zip xs ys) a")
    case None
    note na = this
    then have ax: "a \<notin> set xs"
      using none by simp
    show ?thesis
    proof (cases "map_of (zip xs ys) b")
      case None
      then have "b \<notin> set xs"
        using none by simp
      with ax have "(a, b) \<notin> set (zip xs ys)" "(b, a) \<notin> set (zip xs ys)"
        using left by blast+
      then show ?thesis
        using na None by simp
    next
      case (Some v)
      then have bv: "(b, v) \<in> set (zip xs ys)"
        using some by simp
      then have "b \<in> set xs" "v \<in> set ys"
        using left by blast+
      have "(a, b) \<notin> set (zip xs ys)"
        using ax left by blast
      moreover have "(b, a) \<in> set (zip xs ys) \<longleftrightarrow> a = v"
        using bv some [of b a] Some by auto
      moreover have "a \<noteq> b"
        using ax \<open>b \<in> set xs\<close> by blast
      ultimately show ?thesis
        using na Some by auto
    qed
  next
    case (Some u)
    note sa = this
    then have au: "(a, u) \<in> set (zip xs ys)"
      using some by simp
    then have ax: "a \<in> set xs" and uy: "u \<in> set ys"
      using left by blast+
    show ?thesis
    proof (cases "map_of (zip xs ys) b")
      case None
      then have bx: "b \<notin> set xs"
        using none by simp
      have "(b, a) \<notin> set (zip xs ys)"
        using bx left by blast
      moreover have "(a, b) \<in> set (zip xs ys) \<longleftrightarrow> b = u"
        using au some [of a b] sa by auto
      moreover have "a \<noteq> b"
        using ax bx by blast
      ultimately show ?thesis
        using sa None by auto
    next
      case (Some v)
      then have bv: "(b, v) \<in> set (zip xs ys)"
        using some by simp
      then have bx: "b \<in> set xs"
        using left by blast
      have "u = v \<longleftrightarrow> a = b"
        using inj [of a u b] au bv sa Some by auto
      moreover have "(a, b) \<notin> set (zip xs ys)"
        using left [of a b] bx disj by blast
      moreover have "(b, a) \<notin> set (zip xs ys)"
        using left [of b a] ax disj by blast
      ultimately show ?thesis
        using sa Some by simp
    qed
  qed
qed

lemma ascii_tables:
  "distinct ascii_lower" "distinct ascii_upper" "length ascii_lower = length ascii_upper"
  "set ascii_lower \<inter> set ascii_upper = {}"
  by (simp_all add: ascii_lower_def ascii_upper_def)

lemma upper_byte_eq_iff: "upper_byte a = upper_byte b \<longleftrightarrow> same_letter a b"
  unfolding upper_byte_def same_letter_def
  using ascii_tables by (intro zip_table_eq_iff) auto

lemma zip_swap: "(a, b) \<in> set (zip xs ys) \<longleftrightarrow> (b, a) \<in> set (zip ys xs)"
  by (auto simp: in_set_zip)

lemma lower_byte_eq_iff: "lower_byte a = lower_byte b \<longleftrightarrow> same_letter a b"
proof -
  have "lower_byte a = lower_byte b \<longleftrightarrow>
        a = b \<or> (a, b) \<in> set (zip ascii_upper ascii_lower) \<or> (b, a) \<in> set (zip ascii_upper ascii_lower)"
    unfolding lower_byte_def using ascii_tables by (intro zip_table_eq_iff) auto
  then show ?thesis
    unfolding same_letter_def using zip_swap [of a b ascii_upper ascii_lower]
      zip_swap [of b a ascii_upper ascii_lower] by auto
qed

lemma map_eq_list_all2: "map f u = map f t \<longleftrightarrow> list_all2 (\<lambda>a b. f a = f b) u t"
proof (induction u arbitrary: t)
  case Nil
  show ?case by auto
next
  case (Cons a u)
  show ?case by (cases t) (auto simp: Cons.IH)
qed

lemma sublist_map_iff: "sublist ys (map f xs) \<longleftrightarrow> (\<exists>u. sublist u xs \<and> map f u = ys)"
proof
  assume "sublist ys (map f xs)"
  then obtain ps ss where "map f xs = ps @ ys @ ss"
    by (auto simp: sublist_def)
  then have "\<exists>us vs. xs = us @ vs \<and> ps = map f us \<and> ys @ ss = map f vs"
    by (simp add: map_eq_append_conv)
  then obtain us vs where 1: "xs = us @ vs" "map f vs = ys @ ss"
    by auto
  then have "\<exists>u w. vs = u @ w \<and> ys = map f u \<and> ss = map f w"
    by (simp add: map_eq_append_conv)
  then obtain u w where 2: "vs = u @ w" "map f u = ys"
    by auto
  with 1 have "xs = us @ u @ w" "map f u = ys"
    by simp_all
  then show "\<exists>u. sublist u xs \<and> map f u = ys"
    by (auto simp: sublist_def)
next
  assume "\<exists>u. sublist u xs \<and> map f u = ys"
  then show "sublist ys (map f xs)"
    by (auto intro: map_mono_sublist)
qed

lemma contains_ignoring_case_iff:
  "contains_ignoring_case s t \<longleftrightarrow> (\<exists>u. sublist u s \<and> list_all2 same_letter u t)"
  by (auto simp: contains_ignoring_case_def list_ex_iff)

lemma upper_contains:
  "sublist (map upper_byte t) (map upper_byte s) \<longleftrightarrow> contains_ignoring_case s t"
  by (simp add: sublist_map_iff map_eq_list_all2 upper_byte_eq_iff contains_ignoring_case_iff)

lemma lower_contains:
  assumes "map lower_byte t = t"
  shows "sublist t (map lower_byte s) \<longleftrightarrow> contains_ignoring_case s t"
proof -
  have "sublist t (map lower_byte s) \<longleftrightarrow> (\<exists>u. sublist u s \<and> map lower_byte u = map lower_byte t)"
    using assms by (simp add: sublist_map_iff)
  then show ?thesis
    by (simp add: map_eq_list_all2 lower_byte_eq_iff contains_ignoring_case_iff)
qed

lemma xssPatterns_lower: "\<forall>t\<in>set xssPatterns. map lower_byte t = t"
  by (simp add: xssPatterns_def string_defs)

lemma detectSQLi_ascii_iff:
  "isASCII s \<Longrightarrow> detectSQLi U s \<longleftrightarrow> (\<exists>t\<in>set sqlPatterns. contains_ignoring_case s t)"
  by (simp add: detectSQLi_ascii list_ex_iff upper_contains)

lemma detectXSS_ascii_iff:
  "isASCII s \<Longrightarrow> detectXSS U s \<longleftrightarrow> (\<exists>t\<in>set xssPatterns. contains_ignoring_case s t)"
  using xssPatterns_lower by (auto simp: detectXSS_ascii list_ex_iff lower_contains)

text \<open>
  C5 (as the code has it). On an input of ASCII bytes \<open>detectSQLi\<close> is true exactly when
  the input contains, up to letter case, one of the terms of \<open>sqlPatterns\<close>; that list
  consists of the nine terms the specification names and of \<open>' OR 'a'='a\<close>. On such an
  input \<open>detectXSS\<close> is true exactly when the input contains, up to letter case, one of
  the eleven terms of \<open>xssPatterns\<close>. This holds whatever the case tables of the library
  are. On any input the detectors search the terms in the input as \<open>strings.ToUpper\<close> or
  \<open>strings.ToLower\<close> returns it.
\<close>

theorem detectors_on_ascii_input:
  "(isASCII s \<longrightarrow> (detectSQLi U s \<longleftrightarrow> (\<exists>t\<in>set sqlPatterns. contains_ignoring_case s t)))
   \<and> set sqlPatterns =
       {''' OR '1'='1'', ''' OR 1=1'', '''; DROP TABLE'', ''UNION SELECT'', ''admin' --'',
        ''' /*'', ''*/ OR /*'', ''xp_'', ''sp_''} \<union> {''' OR 'a'='a''}
   \<and> (isASCII s \<longrightarrow> (detectXSS U s \<longleftrightarrow> (\<exists>t\<in>set xssPatterns. contains_ignoring_case s t)))
   \<and> xssPatterns =
       [''<script'', ''javascript:'', ''onerror='', ''onload='', ''onclick='', ''onmouseover='',
        ''<iframe'', ''<object'', ''<embed'', ''<img'', ''<svg'']
   \<and> (detectSQLi U s \<longleftrightarrow>
        (\<exists>t\<in>set sqlPatterns. sublist (map upper_byte t) (strings_ToUpper U s)))
   \<and> (detectXSS U s \<longleftrightarrow> (\<exists>t\<in>set xssPatterns. sublist t (strings_ToLower U s)))"
proof -
  have 3: "set sqlPatterns =
       {''' OR '1'='1'', ''' OR 1=1'', '''; DROP TABLE'', ''UNION SELECT'', ''admin' --'',
        ''' /*'', ''*/ OR /*'', ''xp_'', ''sp_''} \<union> {''' OR 'a'='a''}"
    unfolding sqlPatterns_def by auto
  have "\<forall>t\<in>set sqlPatterns. strings_ToUpper U t = map upper_byte t"
    using sqlPatterns_ascii by (auto simp: list_all_iff ToUpper_ascii)
  then have 4: "detectSQLi U s \<longleftrightarrow>
        (\<exists>t\<in>set sqlPatterns. sublist (map upper_byte t) (strings_ToUpper U s))"
    by (simp add: detectSQLi_def strings_Contains_def list_ex_iff)
  have 5: "detectXSS U s \<longleftrightarrow> (\<exists>t\<in>set xssPatterns. sublist t (strings_ToLower U s))"
    by (simp add: detectXSS_def strings_Contains_def list_ex_iff)
  show ?thesis
    using detectSQLi_ascii_iff [of s U] detectXSS_ascii_iff [of s U] 3 4 5
    by (simp add: xssPatterns_def)
qed

theorem detectors_on_ascii_input_witness:
  "isASCII ''q=1 union select x''
   \<and> detectSQLi listed_unicode ''q=1 union select x''
   \<and> contains_ignoring_case ''q=1 union select x'' ''UNION SELECT''
   \<and> \<not> detectSQLi listed_unicode ''q=1 onion select x''
   \<and> isASCII ''<ScRiPt>alert(1)''
   \<and> detectXSS listed_unicode ''<ScRiPt>alert(1)''
   \<and> contains_ignoring_case ''<ScRiPt>alert(1)'' ''<script''"
proof -
  have i: "isASCII ''q=1 union select x''" "isASCII ''<ScRiPt>alert(1)''"
    by (simp_all add: isASCII_def)
  have a: "detectSQLi listed_unicode ''q=1 union select x''"
    by (simp add: detectSQLi_ascii isASCII_def sqlPatterns_def string_defs)
  have b: "\<not> detectSQLi listed_unicode ''q=1 onion select x''"
    by (simp add: detectSQLi_ascii isASCII_def sqlPatterns_def string_defs)
  have c: "detectXSS listed_unicode ''<ScRiPt>alert(1)''"
    by (simp add: detectXSS_ascii isASCII_def xssPatterns_def string_defs)
  have d: "contains_ignoring_case ''q=1 union select x'' ''UNION SELECT''"
    using upper_contains [of "''UNION SELECT''" "''q=1 union select x''"]
    by (simp add: string_defs)
  have e: "contains_ignoring_case ''<ScRiPt>alert(1)'' ''<script''"
    using lower_contains [of "''<script''" "''<ScRiPt>alert(1)''"]
    by (simp add: string_defs)
  from detectors_on_ascii_input [of "''q=1 union select x''" listed_unicode] i a
  have "\<exists>t\<in>set sqlPatterns. contains_ignoring_case ''q=1 union select x'' t"
    by blast
  with i a b c d e show ?thesis by simp
qed

text \<open>The bytes the case mapping writes for the runes of the two examples.\<close>

lemma byte_of_char: "byte (of_char c) = c"
  by (simp add: byte_def)

lemma bytes_written:
  "byte 85 = CHR ''U''" "byte 78 = CHR ''N''" "byte 73 = CHR ''I''" "byte 79 = CHR ''O''"
  "byte 32 = CHR '' ''" "byte 83 = CHR ''S''" "byte 69 = CHR ''E''" "byte 76 = CHR ''L''"
  "byte 67 = CHR ''C''" "byte 84 = CHR ''T''"
  "byte 111 = CHR ''o''" "byte 110 = CHR ''n''" "byte 99 = CHR ''c''" "byte 108 = CHR ''l''"
  "byte 105 = CHR ''i''" "byte 107 = CHR ''k''" "byte 61 = CHR ''=''" "byte 49 = CHR ''1''"
  using byte_of_char [of "CHR ''U''"] byte_of_char [of "CHR ''N''"] byte_of_char [of "CHR ''I''"]
    byte_of_char [of "CHR ''O''"] byte_of_char [of "CHR '' ''"] byte_of_char [of "CHR ''S''"]
    byte_of_char [of "CHR ''E''"] byte_of_char [of "CHR ''L''"] byte_of_char [of "CHR ''C''"]
    byte_of_char [of "CHR ''T''"]
    byte_of_char [of "CHR ''o''"] byte_of_char [of "CHR ''n''"] byte_of_char [of "CHR ''c''"]
    byte_of_char [of "CHR ''l''"] byte_of_char [of "CHR ''i''"] byte_of_char [of "CHR ''k''"]
    byte_of_char [of "CHR ''=''"] byte_of_char [of "CHR ''1''"]
  by simp_all

lemma ToUpper_dotless: "strings_ToUpper listed_unicode dotless_union_select = ''UNION SELECT''"
  by (simp add: strings_ToUpper_def isASCII_def dotless_union_select_def strings_Map_def
        runes_def cont_byte_def Let_def listed_unicode_def listed_upper_def encoderune_def
        bytes_written)

lemma ToLower_kelvin: "strings_ToLower listed_unicode kelvin_onclick = ''onclick=1''"
  by (simp add: strings_ToLower_def isASCII_def kelvin_onclick_def strings_Map_def
        runes_def cont_byte_def Let_def listed_unicode_def listed_lower_def encoderune_def
        bytes_written)

text \<open>
  Beyond ASCII the equivalence fails. The library maps the dotless i to the capital I and
  the Kelvin sign to the small k: \<open>detectSQLi\<close> is true of \<open>UN\<close>, dotless i, \<open>ON SELECT\<close>,
  and \<open>detectXSS\<close> is true of \<open>onclic\<close>, Kelvin sign, \<open>=1\<close>, although neither input
  contains a term of the lists up to letter case.
\<close>

theorem case_mapping_counterexample:
  "detectSQLi listed_unicode dotless_union_select
   \<and> \<not> list_ex (contains_ignoring_case dotless_union_select) sqlPatterns
   \<and> detectXSS listed_unicode kelvin_onclick
   \<and> \<not> list_ex (contains_ignoring_case kelvin_onclick) xssPatterns"
proof -
  have a: "detectSQLi listed_unicode dotless_union_select"
    by (simp add: detectSQLi_def ToUpper_dotless ToUpper_ascii isASCII_def sqlPatterns_def
          string_defs)
  have b: "\<not> list_ex (\<lambda>t. sublist (map upper_byte t) (map upper_byte dotless_union_select))
                sqlPatterns"
    by (simp add: dotless_union_select_def sqlPatterns_def string_defs)
  have c: "detectXSS listed_unicode kelvin_onclick"
    by (simp add: detectXSS_def ToLower_kelvin xssPatterns_def string_defs)
  have d: "\<not> list_ex (\<lambda>t. sublist (map lower_byte t) (map lower_byte kelvin_onclick))
                xssPatterns"
    by (simp add: kelvin_onclick_def xssPatterns_def string_defs)
  have e: "list_ex (contains_ignoring_case kelvin_onclick) xssPatterns
           = list_ex (\<lambda>t. sublist (map lower_byte t) (map lower_byte kelvin_onclick)) xssPatterns"
    using xssPatterns_lower by (auto simp: list_ex_iff lower_contains)
  from a b c d e show ?thesis by (simp add: upper_contains)
qed

text \<open>The two matches do not depend on the rest of the tables: they hold for every pair of
  tables that sends the dotless i to the capital I, the Kelvin sign to the small k, and
  leaves the other runes of the two inputs as they are.\<close>

lemma runes_dotless:
  "runes dotless_union_select = [85, 78, 305, 79, 78, 32, 83, 69, 76, 69, 67, 84]"
  by (simp add: dotless_union_select_def runes_def cont_byte_def Let_def)

lemma runes_kelvin: "runes kelvin_onclick = [111, 110, 99, 108, 105, 99, 8490, 61, 49]"
  by (simp add: kelvin_onclick_def runes_def cont_byte_def Let_def)

lemma detectSQLi_dotless:
  assumes "unicode_ToUpper U 305 = 73"
    and "\<forall>r\<in>set [85, 78, 79, 32, 83, 69, 76, 67, 84]. unicode_ToUpper U r = r"
  shows "detectSQLi U dotless_union_select"
proof -
  have "\<not> isASCII dotless_union_select"
    by (simp add: isASCII_def dotless_union_select_def)
  then have "strings_ToUpper U dotless_union_select = ''UNION SELECT''"
    using assms
    by (simp add: strings_ToUpper_def strings_Map_def runes_dotless encoderune_def bytes_written)
  then show ?thesis
    by (simp add: detectSQLi_def ToUpper_ascii isASCII_def sqlPatterns_def string_defs)
qed

lemma detectXSS_kelvin:
  assumes "unicode_ToLower U 8490 = 107"
    and "\<forall>r\<in>set [111, 110, 99, 108, 105, 61, 49]. unicode_ToLower U r = r"
  shows "detectXSS U kelvin_onclick"
proof -
  have "\<not> isASCII kelvin_onclick"
    by (simp add: isASCII_def kelvin_onclick_def)
  then have "strings_ToLower U kelvin_onclick = ''onclick=1''"
    using assms
    by (simp add: strings_ToLower_def strings_Map_def runes_kelvin encoderune_def bytes_written)
  then show ?thesis
    by (simp add: detectXSS_def xssPatterns_def string_defs)
qed

subsection \<open>Rounding to \<open>float64\<close>\<close>

text \<open>The value of \<open>round64\<close> on a number between \<open>2 ^ (52 - m)\<close> and \<open>2 ^ (53 - m)\<close>, on
  the integers below \<open>2 ^ 53\<close>, which are their own \<open>float64\<close>, and on the numbers the
  examples meet.\<close>


lemma round_half_even_of_int: "round_half_even (of_int k) = k"
  by (simp add: round_half_even_def)

lemma round_half_even_near: "\<bar>of_int (round_half_even z) - z\<bar> \<le> 1 / 2"
  unfolding round_half_even_def Let_def by (auto simp: abs_le_iff)

lemma binade_eqI:
  assumes "2 powr of_int e \<le> \<bar>x\<bar>" and "\<bar>x\<bar> < 2 powr (of_int e + 1)" and "- 1022 \<le> e"
  shows "binade x = e"
proof -
  have pos: "0 < \<bar>x\<bar>"
    using assms(1) by (smt (verit) powr_gt_zero)
  have "of_int e \<le> log 2 \<bar>x\<bar>"
    using assms(1) pos by (simp add: le_log_iff)
  moreover have "log 2 \<bar>x\<bar> < of_int e + 1"
    using assms(2) pos by (simp add: log_less_iff)
  ultimately have "\<lfloor>log 2 \<bar>x\<bar>\<rfloor> = e"
    by linarith
  then show ?thesis
    using assms(3) by (simp add: binade_def)
qed

lemma round64_scaled:
  assumes m: "m \<le> 1074" and lo: "2 ^ 52 \<le> \<bar>x\<bar> * 2 ^ m" and hi: "\<bar>x\<bar> * 2 ^ m < 2 ^ 53"
  shows "round64 x = Finite (of_int (round_half_even (x * 2 ^ m)) / 2 ^ m)"
proof -
  let ?e = "52 - int m"
  have p: "(2::real) powr of_int (- int m) = 1 / 2 ^ m"
    by (simp add: powr_minus powr_realpow divide_simps)
  have e1: "(2::real) powr of_int ?e = 2 ^ 52 / 2 ^ m"
    by (simp add: powr_diff powr_realpow)
  have e2: "(2::real) powr (of_int ?e + 1) = 2 ^ 53 / 2 ^ m"
    by (simp add: powr_diff powr_add powr_realpow)
  have b: "binade x = ?e"
  proof (rule binade_eqI)
    show "2 powr of_int ?e \<le> \<bar>x\<bar>"
      unfolding e1 using lo by (simp add: divide_simps)
    show "\<bar>x\<bar> < 2 powr (of_int ?e + 1)"
      unfolding e2 using hi by (simp add: divide_simps)
    show "- 1022 \<le> ?e"
      using m by simp
  qed
  have x0: "x \<noteq> 0"
    using lo by auto
  have q: "(2::real) powr (of_int (binade x) - 52) = 1 / 2 ^ m"
    unfolding b using p by simp
  let ?k = "round_half_even (x * 2 ^ m)"
  have "\<bar>of_int ?k\<bar> \<le> \<bar>x * 2 ^ m\<bar> + 1 / 2"
    using round_half_even_near [of "x * 2 ^ m"] by linarith
  also have "\<dots> < 2 ^ 53 + 1"
    using hi by (simp add: abs_mult)
  finally have k: "\<bar>real_of_int ?k\<bar> < 2 ^ 53 + 1" .
  have "\<bar>real_of_int ?k / 2 ^ m\<bar> \<le> \<bar>real_of_int ?k\<bar>"
    by (simp add: divide_simps mult_le_cancel_left1 abs_mult)
  also have "\<dots> < 2 ^ 53 + 1"
    by (rule k)
  also have "\<dots> < (2::real) ^ 1024"
  proof -
    have "(2::real) ^ 53 + 1 \<le> 2 ^ 54" by simp
    also have "\<dots> < (2::real) ^ 1024" by (rule power_strict_increasing) simp_all
    finally show ?thesis .
  qed
  finally have y: "\<bar>real_of_int ?k / 2 ^ m\<bar> < 2 ^ 1024" .
  then have "\<not> 2 ^ 1024 \<le> real_of_int ?k / 2 ^ m" "\<not> real_of_int ?k / 2 ^ m \<le> - (2 ^ 1024)"
    by linarith+
  then show ?thesis
    using x0 by (simp add: round64_def q Let_def)
qed

lemma round64_frac_4_5: "round64 (4 / 5) = Finite (3602879701896397 / 4503599627370496)"
  using round64_scaled [of 53 "4 / 5"] by (simp add: round_half_even_def Let_def)

lemma round64_80: "round64 (90071992547409925 / 1125899906842624) = Finite 80"
  using round64_scaled [of 46 "90071992547409925 / 1125899906842624"]
  by (simp add: round_half_even_def Let_def)


lemma round64_int:
  assumes "\<bar>n\<bar> < 2 ^ 53"
  shows "round64 (of_int n) = Finite (of_int n)"
proof (cases "n = 0")
  case True
  then show ?thesis by (simp add: round64_def)
next
  case False
  define x :: real where "x = of_int n"
  have x1: "1 \<le> \<bar>x\<bar>"
    using False unfolding x_def by (simp flip: of_int_abs)
  have x2: "\<bar>x\<bar> < 2 ^ 53"
    using assms unfolding x_def by (simp flip: of_int_abs)
  have l0: "0 \<le> log 2 \<bar>x\<bar>"
    using x1 by simp
  have "\<bar>x\<bar> < 2 powr real (53::nat)"
    unfolding powr_realpow [OF zero_less_numeral] using x2 by simp
  then have l1: "log 2 \<bar>x\<bar> < 53"
    using x1 by (simp add: log_less_iff)
  define e where "e = \<lfloor>log 2 \<bar>x\<bar>\<rfloor>"
  have e: "0 \<le> e" "e \<le> 52"
    using l0 l1 unfolding e_def by linarith+
  have b: "binade x = e"
    using e by (simp add: binade_def e_def)
  define N where "N = nat (52 - e)"
  have q: "(2::real) powr (of_int e - 52) = 1 / 2 ^ N"
  proof -
    have "of_int e - 52 = - real N"
      using e by (simp add: N_def)
    then show ?thesis
      by (simp add: powr_minus powr_realpow divide_simps)
  qed
  have r: "x / (1 / 2 ^ N) = of_int (n * 2 ^ N)"
    by (simp add: x_def)
  have y: "real_of_int (n * 2 ^ N) * (1 / 2 ^ N) = x"
    by (simp add: x_def)
  have big: "\<bar>x\<bar> < 2 ^ 1024"
  proof -
    have "(2::real) ^ 53 < 2 ^ 1024" by (rule power_strict_increasing) simp_all
    with x2 show ?thesis by linarith
  qed
  then have "\<not> 2 ^ 1024 \<le> x" "\<not> x \<le> - (2 ^ 1024)"
    by linarith+
  moreover have "x \<noteq> 0"
    using x1 by auto
  ultimately have "round64 x = Finite x"
    unfolding round64_def b q Let_def r round_half_even_of_int y by simp
  then show ?thesis
    by (simp add: x_def)
qed

lemma float64_of_int_small: "\<bar>n\<bar> < 2 ^ 53 \<Longrightarrow> float64_of_int n = Finite (of_int n)"
  by (simp add: float64_of_int_def round64_int)

lemma round64_frac_7_10: "round64 (7 / 10) = Finite (3152519739159347 / 4503599627370496)"
  using round64_scaled [of 53 "7 / 10"] by (simp add: round_half_even_def Let_def)

lemma fmt_fixed_10: "fmt_fixed 2 10 = ''10.00''"
  by (simp add: fmt_fixed_def round_half_even_def Let_def digits10.simps)

lemma float64_consts:
  "float64_const (4 / 5) = Finite (3602879701896397 / 4503599627370496)"
  "float64_const (7 / 10) = Finite (3152519739159347 / 4503599627370496)"
  by (simp_all add: float64_const_def round64_frac_4_5 round64_frac_7_10)

subsection \<open>The efficacy analyser\<close>

lemma count_blocked_fields:
  "TruePositives (metrics (count_blocked a e))
     = TruePositives (metrics a) + (if is_blocked e then 1 else 0)"
  "FalsePositives (metrics (count_blocked a e))
     = FalsePositives (metrics a) + (if is_blocked e then 0 else 1)"
  "TotalTriggers (metrics (count_blocked a e)) = TotalTriggers (metrics a)"
  "FalseNegatives (metrics (count_blocked a e)) = FalseNegatives (metrics a)"
  "Precision (metrics (count_blocked a e)) = Precision (metrics a)"
  "Recall (metrics (count_blocked a e)) = Recall (metrics a)"
  "BlockRate (metrics (count_blocked a e)) = BlockRate (metrics a)"
  "AvgLatencyMs (metrics (count_blocked a e)) = AvgLatencyMs (metrics a)"
  "totalLatency (count_blocked a e) = totalLatency a"
  by (simp_all add: count_blocked_def is_blocked_def split: option.split jvalue.split bool.split)

lemma track_latency_fields:
  "metrics (track_latency a e) = metrics a"
  "totalLatency (track_latency a e) = add_latency (totalLatency a) e"
  by (simp_all add: track_latency_def add_latency_def split: option.split jvalue.split)

lemma track_name_fields:
  "TruePositives (metrics (track_name a e)) = TruePositives (metrics a)"
  "FalsePositives (metrics (track_name a e)) = FalsePositives (metrics a)"
  "TotalTriggers (metrics (track_name a e)) = TotalTriggers (metrics a)"
  "FalseNegatives (metrics (track_name a e)) = FalseNegatives (metrics a)"
  "Precision (metrics (track_name a e)) = Precision (metrics a)"
  "Recall (metrics (track_name a e)) = Recall (metrics a)"
  "BlockRate (metrics (track_name a e)) = BlockRate (metrics a)"
  "AvgLatencyMs (metrics (track_name a e)) = AvgLatencyMs (metrics a)"
  "totalLatency (track_name a e) = totalLatency a"
  by (simp_all add: track_name_def split: option.split jvalue.split)

lemma count_event_fields:
  "TruePositives (metrics (count_event a e))
     = TruePositives (metrics a) + (if is_blocked e then 1 else 0)"
  "FalsePositives (metrics (count_event a e))
     = FalsePositives (metrics a) + (if is_blocked e then 0 else 1)"
  "TotalTriggers (metrics (count_event a e)) = TotalTriggers (metrics a)"
  "FalseNegatives (metrics (count_event a e)) = FalseNegatives (metrics a)"
  "Precision (metrics (count_event a e)) = Precision (metrics a)"
  "Recall (metrics (count_event a e)) = Recall (metrics a)"
  "BlockRate (metrics (count_event a e)) = BlockRate (metrics a)"
  "AvgLatencyMs (metrics (count_event a e)) = AvgLatencyMs (metrics a)"
  "totalLatency (count_event a e) = add_latency (totalLatency a) e"
  by (simp_all add: count_event_def count_blocked_fields track_latency_fields track_name_fields)

lemma foldl_count_event_fields:
  "TruePositives (metrics (foldl count_event a evs))
     = TruePositives (metrics a) + int (length (filter is_blocked evs))"
  "FalsePositives (metrics (foldl count_event a evs))
     = FalsePositives (metrics a) + int (length (filter (\<lambda>e. \<not> is_blocked e) evs))"
  "TotalTriggers (metrics (foldl count_event a evs)) = TotalTriggers (metrics a)"
  "FalseNegatives (metrics (foldl count_event a evs)) = FalseNegatives (metrics a)"
  "Precision (metrics (foldl count_event a evs)) = Precision (metrics a)"
  "Recall (metrics (foldl count_event a evs)) = Recall (metrics a)"
  "BlockRate (metrics (foldl count_event a evs)) = BlockRate (metrics a)"
  "AvgLatencyMs (metrics (foldl count_event a evs)) = AvgLatencyMs (metrics a)"
  "totalLatency (foldl count_event a evs) = foldl add_latency (totalLatency a) evs"
  by (induction evs arbitrary: a) (simp_all add: count_event_fields)

lemma step_fields:
  "TruePositives (set_latencies evs a) = TruePositives (metrics a)"
  "FalsePositives (set_latencies evs a) = FalsePositives (metrics a)"
  "FalseNegatives (set_latencies evs a) = FalseNegatives (metrics a)"
  "TotalTriggers (set_latencies evs a) = TotalTriggers (metrics a)"
  "Precision (set_latencies evs a) = Precision (metrics a)"
  "Recall (set_latencies evs a) = Recall (metrics a)"
  "BlockRate (set_latencies evs a) = BlockRate (metrics a)"
  "AvgLatencyMs (set_latencies evs a)
     = (if evs = [] then AvgLatencyMs (metrics a)
        else fdiv (totalLatency a) (float64_of_int (int (length evs))))"
  "TruePositives (set_precision m) = TruePositives m"
  "FalsePositives (set_precision m) = FalsePositives m"
  "FalseNegatives (set_precision m) = FalseNegatives m"
  "TotalTriggers (set_precision m) = TotalTriggers m"
  "Recall (set_precision m) = Recall m"
  "BlockRate (set_precision m) = BlockRate m"
  "AvgLatencyMs (set_precision m) = AvgLatencyMs m"
  "Precision (set_precision m)
     = (if TruePositives m + FalsePositives m > 0
        then fdiv (float64_of_int (TruePositives m))
                  (float64_of_int (TruePositives m + FalsePositives m))
        else Precision m)"
  "TruePositives (set_recall m) = TruePositives m"
  "FalsePositives (set_recall m) = FalsePositives m"
  "FalseNegatives (set_recall m) = FalseNegatives m"
  "TotalTriggers (set_recall m) = TotalTriggers m"
  "Precision (set_recall m) = Precision m"
  "BlockRate (set_recall m) = BlockRate m"
  "AvgLatencyMs (set_recall m) = AvgLatencyMs m"
  "Recall (set_recall m)
     = (if TruePositives m + FalseNegatives m > 0
        then fdiv (float64_of_int (TruePositives m))
                  (float64_of_int (TruePositives m + FalseNegatives m))
        else Recall m)"
  "TruePositives (set_f1 m) = TruePositives m"
  "FalsePositives (set_f1 m) = FalsePositives m"
  "FalseNegatives (set_f1 m) = FalseNegatives m"
  "TotalTriggers (set_f1 m) = TotalTriggers m"
  "Precision (set_f1 m) = Precision m"
  "Recall (set_f1 m) = Recall m"
  "BlockRate (set_f1 m) = BlockRate m"
  "AvgLatencyMs (set_f1 m) = AvgLatencyMs m"
  "TruePositives (set_block_rate m) = TruePositives m"
  "FalsePositives (set_block_rate m) = FalsePositives m"
  "FalseNegatives (set_block_rate m) = FalseNegatives m"
  "TotalTriggers (set_block_rate m) = TotalTriggers m"
  "Precision (set_block_rate m) = Precision m"
  "Recall (set_block_rate m) = Recall m"
  "AvgLatencyMs (set_block_rate m) = AvgLatencyMs m"
  "BlockRate (set_block_rate m)
     = (if TotalTriggers m > 0
        then fmul (fdiv (float64_of_int (TruePositives m)) (float64_of_int (TotalTriggers m)))
                  (Finite 100)
        else BlockRate m)"
  by (simp_all add: set_latencies_def set_precision_def set_recall_def set_f1_def
        set_block_rate_def)

lemmas derive_fields = derive_metrics_def step_fields

lemma length_filter_split:
  "int (length (filter P xs)) + int (length (filter (\<lambda>x. \<not> P x) xs)) = int (length xs)"
  using sum_length_filter_compl [of P xs] by linarith

lemma calculateRuleMetrics_counts:
  "TotalTriggers (calculateRuleMetrics ruleID evs) = int (length evs)"
  "TruePositives (calculateRuleMetrics ruleID evs) = int (length (filter is_blocked evs))"
  "FalsePositives (calculateRuleMetrics ruleID evs)
     = int (length (filter (\<lambda>e. \<not> is_blocked e) evs))"
  "FalseNegatives (calculateRuleMetrics ruleID evs) = 0"
  by (simp_all add: calculateRuleMetrics_def derive_fields foldl_count_event_fields
        initial_metrics_def)

lemma calculateRuleMetrics_Precision:
  "Precision (calculateRuleMetrics ruleID evs)
     = (if evs = [] then Finite 0
        else fdiv (float64_of_int (int (length (filter is_blocked evs))))
                  (float64_of_int (int (length evs))))"
  using length_filter_split [of is_blocked evs]
  by (simp add: calculateRuleMetrics_def derive_fields foldl_count_event_fields
        initial_metrics_def)

lemma calculateRuleMetrics_Recall:
  "Recall (calculateRuleMetrics ruleID evs)
     = (if filter is_blocked evs = [] then Finite 0
        else fdiv (float64_of_int (int (length (filter is_blocked evs))))
                  (float64_of_int (int (length (filter is_blocked evs)))))"
  by (simp add: calculateRuleMetrics_def derive_fields foldl_count_event_fields
        initial_metrics_def)

lemma calculateRuleMetrics_BlockRate:
  "BlockRate (calculateRuleMetrics ruleID evs)
     = (if evs = [] then Finite 0
        else fmul (fdiv (float64_of_int (int (length (filter is_blocked evs))))
                        (float64_of_int (int (length evs))))
                  (Finite 100))"
  by (simp add: calculateRuleMetrics_def derive_fields foldl_count_event_fields
        initial_metrics_def)

lemma calculateRuleMetrics_AvgLatencyMs:
  "AvgLatencyMs (calculateRuleMetrics ruleID evs)
     = (if evs = [] then Finite 0
        else fdiv (latency_sum evs) (float64_of_int (int (length evs))))"
  by (simp add: calculateRuleMetrics_def derive_fields foldl_count_event_fields
        initial_metrics_def latency_sum_def)

lemma group_event_apply:
  "group_event g e rid = (if attributed rid e then g rid @ [e] else g rid)"
  by (auto simp: group_event_def attributed_def split: option.splits jvalue.splits)

lemma foldl_group_event:
  "foldl group_event g evs rid = g rid @ filter (attributed rid) evs"
  by (induction evs arbitrary: g) (simp_all add: group_event_apply)

lemma AnalyzeRules_lookup:
  "ruleMetrics (AnalyzeRules ea) ruleID =
     (if filter (attributed ruleID) (events ea) = [] then ruleMetrics ea ruleID
      else Some ((calculateRuleMetrics ruleID (filter (attributed ruleID) (events ea)))
             \<lparr>Recommendations :=
                generateRecommendations
                  (calculateRuleMetrics ruleID (filter (attributed ruleID) (events ea)))\<rparr>))"
  by (simp add: AnalyzeRules_def Let_def foldl_group_event)

text \<open>For a batch of fewer than \<open>2 ^ 53\<close> events the counts convert to \<open>float64\<close> without
  rounding, and precision is the quotient of the counts, rounded once.\<close>

lemma Precision_rounded_quotient:
  assumes "length evs < 2 ^ 53" and "evs \<noteq> []"
  shows "Precision (calculateRuleMetrics ruleID evs)
           = round64 (real (length (filter is_blocked evs)) / real (length evs))"
proof -
  have n: "\<bar>int (length evs)\<bar> < 2 ^ 53"
    using assms(1) by (simp flip: of_nat_less_numeral_power_cancel_iff [where 'a = int])
  have "length (filter is_blocked evs) \<le> length evs"
    by simp
  then have k: "\<bar>int (length (filter is_blocked evs))\<bar> < 2 ^ 53"
    using n by linarith
  show ?thesis
    using assms(2)
    by (simp add: calculateRuleMetrics_Precision float64_of_int_small [OF n]
          float64_of_int_small [OF k])
qed

text \<open>
  C7. For the events of one rule the analyser counts as true positives the events whose
  blocked flag is true and as false positives all the others, so both counts add up to
  the total of triggers; precision is the quotient of the true positives by their sum
  with the false positives, formed in \<open>float64\<close> (for a batch of fewer than \<open>2 ^ 53\<close>
  events: the \<open>float64\<close> nearest to the exact quotient), and 0 when there are none.
  \<open>AnalyzeRules\<close> stores these metrics for every rule identifier that at least one event
  carries, computed from exactly the events attributed to it.
\<close>

theorem true_and_false_positives:
  "TotalTriggers (calculateRuleMetrics ruleID evs) = int (length evs)
   \<and> TruePositives (calculateRuleMetrics ruleID evs) = int (length (filter is_blocked evs))
   \<and> FalsePositives (calculateRuleMetrics ruleID evs)
       = int (length (filter (\<lambda>e. \<not> is_blocked e) evs))
   \<and> TruePositives (calculateRuleMetrics ruleID evs)
       + FalsePositives (calculateRuleMetrics ruleID evs)
       = TotalTriggers (calculateRuleMetrics ruleID evs)
   \<and> Precision (calculateRuleMetrics ruleID evs)
       = (if TruePositives (calculateRuleMetrics ruleID evs)
              + FalsePositives (calculateRuleMetrics ruleID evs) = 0 then Finite 0
          else fdiv (float64_of_int (TruePositives (calculateRuleMetrics ruleID evs)))
                    (float64_of_int (TruePositives (calculateRuleMetrics ruleID evs)
                                     + FalsePositives (calculateRuleMetrics ruleID evs))))
   \<and> (length evs < 2 ^ 53 \<longrightarrow>
        Precision (calculateRuleMetrics ruleID evs)
          = (if TruePositives (calculateRuleMetrics ruleID evs)
                 + FalsePositives (calculateRuleMetrics ruleID evs) = 0 then Finite 0
             else round64 (real_of_int (TruePositives (calculateRuleMetrics ruleID evs))
                           / real_of_int (TruePositives (calculateRuleMetrics ruleID evs)
                                          + FalsePositives (calculateRuleMetrics ruleID evs)))))
   \<and> (filter (attributed ruleID) (events ea) \<noteq> [] \<longrightarrow>
        ruleMetrics (AnalyzeRules ea) ruleID =
          Some ((calculateRuleMetrics ruleID (filter (attributed ruleID) (events ea)))
             \<lparr>Recommendations :=
                generateRecommendations
                  (calculateRuleMetrics ruleID (filter (attributed ruleID) (events ea)))\<rparr>))"
proof -
  have s: "int (length (filter is_blocked evs)) + int (length (filter (\<lambda>e. \<not> is_blocked e) evs))
           = int (length evs)"
    by (rule length_filter_split)
  have p: "Precision (calculateRuleMetrics ruleID evs)
       = (if int (length evs) = 0 then Finite 0
          else fdiv (float64_of_int (int (length (filter is_blocked evs))))
                    (float64_of_int (int (length evs))))"
    by (simp add: calculateRuleMetrics_Precision)
  have q: "Precision (calculateRuleMetrics ruleID evs)
          = (if int (length evs) = 0 then Finite 0
             else round64 (real_of_int (int (length (filter is_blocked evs)))
                           / real_of_int (int (length evs))))"
    if "length evs < 2 ^ 53"
    using Precision_rounded_quotient [OF that, of ruleID]
    by (cases "evs = []") (simp_all add: calculateRuleMetrics_Precision)
  show ?thesis
    unfolding calculateRuleMetrics_counts s using p q
    by (simp add: AnalyzeRules_lookup)
qed

lemma example_events:
  "attributed ''1001'' (event_of ''1001'' b)"
  "is_blocked (event_of r b) = b"
  "\<not> has_latency (event_of r b)"
  "add_latency t (event_of r b) = t"
  "attributed ''1001'' (timed_event_of ''1001'' b ms)"
  "is_blocked (timed_event_of r b ms) = b"
  "add_latency t (timed_event_of r b ms) = fadd t ms"
  "\<not> attributed r unattributed_event"
  by (simp_all add: attributed_def is_blocked_def add_latency_def has_latency_def event_of_def
        timed_event_of_def unattributed_event_def)

theorem true_and_false_positives_witness:
  "filter (attributed ''1001'')
      (events \<lparr>events = unattributed_event # five_events, ruleMetrics = Map.empty\<rparr>)
     = five_events
   \<and> five_events \<noteq> []
   \<and> TotalTriggers (calculateRuleMetrics ''1001'' five_events) = 5
   \<and> TruePositives (calculateRuleMetrics ''1001'' five_events) = 4
   \<and> FalsePositives (calculateRuleMetrics ''1001'' five_events) = 1
   \<and> Precision (calculateRuleMetrics ''1001'' five_events)
       = Finite (3602879701896397 / 4503599627370496)
   \<and> map_option TruePositives
         (ruleMetrics (AnalyzeRules
            \<lparr>events = unattributed_event # five_events, ruleMetrics = Map.empty\<rparr>) ''1001'')
       = Some 4"
proof -
  have f: "filter (attributed ''1001'')
      (events \<lparr>events = unattributed_event # five_events, ruleMetrics = Map.empty\<rparr>)
     = five_events"
    by (simp add: five_events_def example_events)
  have b: "filter is_blocked five_events = 
      [event_of ''1001'' True, event_of ''1001'' True, event_of ''1001'' True,
       event_of ''1001'' True]"
    and nb: "filter (\<lambda>e. \<not> is_blocked e) five_events = [event_of ''1001'' False]"
    and n: "length five_events = 5"
    by (simp_all add: five_events_def example_events)
  have ne: "five_events \<noteq> []"
    by (simp add: five_events_def)
  note t = true_and_false_positives [of "''1001''" five_events
      "\<lparr>events = unattributed_event # five_events, ruleMetrics = Map.empty\<rparr>"]
  have tp: "TruePositives (calculateRuleMetrics ''1001'' five_events) = 4"
    and fp: "FalsePositives (calculateRuleMetrics ''1001'' five_events) = 1"
    and tot: "TotalTriggers (calculateRuleMetrics ''1001'' five_events) = 5"
    using t by (simp_all add: b nb n)
  from t have "length five_events < 2 ^ 53 \<longrightarrow>
        Precision (calculateRuleMetrics ''1001'' five_events)
          = (if TruePositives (calculateRuleMetrics ''1001'' five_events)
                 + FalsePositives (calculateRuleMetrics ''1001'' five_events) = 0 then Finite 0
             else round64 (real_of_int (TruePositives (calculateRuleMetrics ''1001'' five_events))
                           / real_of_int (TruePositives (calculateRuleMetrics ''1001'' five_events)
                                          + FalsePositives (calculateRuleMetrics ''1001'' five_events))))"
    by blast
  then have "Precision (calculateRuleMetrics ''1001'' five_events) = round64 (4 / 5)"
    by (simp add: tp fp n)
  then have pr: "Precision (calculateRuleMetrics ''1001'' five_events)
       = Finite (3602879701896397 / 4503599627370496)"
    by (simp add: round64_frac_4_5)
  have an: "map_option TruePositives
         (ruleMetrics (AnalyzeRules
            \<lparr>events = unattributed_event # five_events, ruleMetrics = Map.empty\<rparr>) ''1001'')
       = Some 4"
    using t [unfolded f] ne by (simp add: tp)
  from f ne tot tp fp pr an show ?thesis by blast
qed

lemma high_false_positive_iff:
  "list_ex high_false_positive_advice (generateRecommendations m)
     \<longleftrightarrow> FalsePositives m > 0 \<and> fless (Precision m) (float64_const 0.8)"
  by (simp add: generateRecommendations_def high_false_positive_advice_def)

lemma latency_sum_without_latency: "\<not> list_ex has_latency evs \<Longrightarrow> foldl add_latency t evs = t"
  by (induction evs arbitrary: t)
     (auto simp: add_latency_def has_latency_def split: option.splits jvalue.splits)

lemma five_events_metrics:
  assumes "length evs = 5" and "length (filter is_blocked evs) = 4"
  shows "Precision (calculateRuleMetrics ruleID evs) = float64_const 0.8"
    and "BlockRate (calculateRuleMetrics ruleID evs) = Finite 80"
    and "Recall (calculateRuleMetrics ruleID evs) = Finite 1"
    and "TotalTriggers (calculateRuleMetrics ruleID evs) = 5"
    and "FalsePositives (calculateRuleMetrics ruleID evs) = 1"
    and "AvgLatencyMs (calculateRuleMetrics ruleID evs) = fdiv (latency_sum evs) (Finite 5)"
proof -
  have ne: "evs \<noteq> []" "filter is_blocked evs \<noteq> []"
    using assms by auto
  have i: "float64_of_int 4 = Finite 4" "float64_of_int 5 = Finite 5"
    by (simp_all add: float64_of_int_small)
  have one: "round64 1 = Finite 1"
    using round64_int [of 1] by simp
  show "Precision (calculateRuleMetrics ruleID evs) = float64_const 0.8"
    using assms ne by (simp add: calculateRuleMetrics_Precision i float64_const_def)
  show "BlockRate (calculateRuleMetrics ruleID evs) = Finite 80"
    using assms ne by (simp add: calculateRuleMetrics_BlockRate i round64_frac_4_5 round64_80)
  show "Recall (calculateRuleMetrics ruleID evs) = Finite 1"
    using assms ne by (simp add: calculateRuleMetrics_Recall i one)
  show "TotalTriggers (calculateRuleMetrics ruleID evs) = 5"
    using assms by (simp add: calculateRuleMetrics_counts)
  show "FalsePositives (calculateRuleMetrics ruleID evs) = 1"
    using assms length_filter_split [of is_blocked evs]
    by (simp add: calculateRuleMetrics_counts)
  show "AvgLatencyMs (calculateRuleMetrics ruleID evs) = fdiv (latency_sum evs) (Finite 5)"
    using assms ne by (simp add: calculateRuleMetrics_AvgLatencyMs i)
qed

lemma five_events_recommendations:
  assumes "length evs = 5" and "length (filter is_blocked evs) = 4"
  shows "generateRecommendations (calculateRuleMetrics ruleID evs)
            = (if fless (Finite 5) (fdiv (latency_sum evs) (Finite 5)) then
                 [''High average latency (''
                  @ fmt_float 2 (fdiv (latency_sum evs) (Finite 5))
                  @ ''ms). Consider optimizing rule patterns for better performance.'']
               else [])"
proof -
  show ?thesis
    by (simp add: generateRecommendations_def five_events_metrics [OF assms] float64_consts)
qed

text \<open>
  C8 (as the code has it). The advice on a high false positive rate is among the
  recommendations exactly when there is a false positive and precision is strictly below
  the \<open>float64\<close> constant 0.8. For every five events of which four are blocked, precision
  is that constant, the \<open>float64\<close> nearest to 4/5, the block rate is 80 and the advice
  is absent. The average latency of such a batch is the running \<open>float64\<close> sum of the
  response times that are present, divided by five; the list of recommendations is empty
  unless this average exceeds 5, and then it holds the advice on high latency with the
  average printed to two digits, and nothing else. It is empty when no event carries a
  response time.
\<close>

theorem high_false_positive_threshold:
  "(list_ex high_false_positive_advice (generateRecommendations m)
      \<longleftrightarrow> FalsePositives m > 0 \<and> fless (Precision m) (float64_const 0.8))
   \<and> float64_const 0.8 = Finite (3602879701896397 / 4503599627370496)
   \<and> (length evs = 5 \<and> length (filter is_blocked evs) = 4 \<longrightarrow>
        Precision (calculateRuleMetrics ruleID evs) = float64_const 0.8
        \<and> BlockRate (calculateRuleMetrics ruleID evs) = Finite 80
        \<and> \<not> list_ex high_false_positive_advice
               (generateRecommendations (calculateRuleMetrics ruleID evs))
        \<and> AvgLatencyMs (calculateRuleMetrics ruleID evs) = fdiv (latency_sum evs) (Finite 5)
        \<and> generateRecommendations (calculateRuleMetrics ruleID evs)
            = (if fless (Finite 5) (fdiv (latency_sum evs) (Finite 5)) then
                 [''High average latency (''
                  @ fmt_float 2 (fdiv (latency_sum evs) (Finite 5))
                  @ ''ms). Consider optimizing rule patterns for better performance.'']
               else [])
        \<and> (\<not> list_ex has_latency evs \<longrightarrow>
             generateRecommendations (calculateRuleMetrics ruleID evs) = []))"
proof -
  have c: "float64_const 0.8 = Finite (3602879701896397 / 4503599627370496)"
    by (simp add: float64_consts)
  have "\<not> list_ex high_false_positive_advice
               (generateRecommendations (calculateRuleMetrics ruleID evs))"
    if "length evs = 5" "length (filter is_blocked evs) = 4"
    unfolding high_false_positive_iff five_events_metrics(1) [OF that] c by simp
  moreover have "generateRecommendations (calculateRuleMetrics ruleID evs) = []"
    if "length evs = 5" "length (filter is_blocked evs) = 4" "\<not> list_ex has_latency evs"
  proof -
    have "latency_sum evs = Finite 0"
      using that(3) by (simp add: latency_sum_def latency_sum_without_latency)
    moreover have "fdiv (Finite 0) (Finite 5) = Finite 0"
      by (simp add: round64_def)
    ultimately show ?thesis
      by (simp add: five_events_recommendations [OF that(1,2)])
  qed
  ultimately show ?thesis
    using high_false_positive_iff [of m] c five_events_metrics(1,2,6) [of evs ruleID]
      five_events_recommendations [of evs ruleID]
    by blast
qed

lemma small_integers:
  "round64 12 = Finite 12" "round64 21 = Finite 21" "round64 35 = Finite 35"
  "round64 43 = Finite 43" "round64 50 = Finite 50" "round64 10 = Finite 10"
  using round64_int [of 12] round64_int [of 21] round64_int [of 35] round64_int [of 43]
    round64_int [of 50] round64_int [of 10]
  by simp_all

lemma latency_sum_five_timed_events: "latency_sum five_timed_events = Finite 50"
  by (simp add: latency_sum_def five_timed_events_def example_events small_integers)

text \<open>
  The list is not empty for every such batch: five events of rule 1001, four of them
  blocked, with response times of 12, 9, 14, 8 and 7 ms draw the advice on high latency.
\<close>

theorem latency_advice_counterexample:
  "length five_timed_events = 5
   \<and> length (filter is_blocked five_timed_events) = 4
   \<and> generateRecommendations (calculateRuleMetrics ''1001'' five_timed_events)
       = [''High average latency (10.00ms). Consider optimizing rule patterns for better performance.'']
   \<and> generateRecommendations (calculateRuleMetrics ''1001'' five_timed_events) \<noteq> []"
proof -
  have n: "length five_timed_events = 5"
    and b: "length (filter is_blocked five_timed_events) = 4"
    by (simp_all add: five_timed_events_def example_events)
  have "generateRecommendations (calculateRuleMetrics ''1001'' five_timed_events)
       = [''High average latency (10.00ms). Consider optimizing rule patterns for better performance.'']"
    by (simp add: five_events_recommendations [OF n b] latency_sum_five_timed_events
          small_integers fmt_fixed_10)
  with n b show ?thesis by simp
qed

theorem high_false_positive_threshold_witness:
  "length five_events = 5
   \<and> length (filter is_blocked five_events) = 4
   \<and> \<not> list_ex has_latency five_events
   \<and> Precision (calculateRuleMetrics ''1001'' five_events)
       = Finite (3602879701896397 / 4503599627370496)
   \<and> BlockRate (calculateRuleMetrics ''1001'' five_events) = Finite 80
   \<and> generateRecommendations (calculateRuleMetrics ''1001'' five_events) = []"
proof -
  have n: "length five_events = 5"
    and b: "length (filter is_blocked five_events) = 4"
    and l: "\<not> list_ex has_latency five_events"
    by (simp_all add: five_events_def example_events)
  from high_false_positive_threshold [of _ five_events "''1001''"] n b l
  have "Precision (calculateRuleMetrics ''1001'' five_events) = float64_const 0.8"
    and "float64_const 0.8 = Finite (3602879701896397 / 4503599627370496)"
    and "BlockRate (calculateRuleMetrics ''1001'' five_events) = Finite 80"
    and "generateRecommendations (calculateRuleMetrics ''1001'' five_events) = []"
    by blast+
  with n b l show ?thesis by simp
qed

text \<open>
  The test is on the computed average, not on the exact mean. Of five events with the
  response times 5, 5, 5, 5 and \<open>5 + 2 ^ -50\<close> ms, four of them blocked, the exact mean
  is above 5; the running sum rounds to 25, the average is 5 and no advice is drawn.
\<close>

lemma boundary_sum: "latency_sum boundary_timed_events = Finite 25"
proof -
  have i: "round64 5 = Finite 5" "round64 10 = Finite 10" "round64 15 = Finite 15"
    "round64 20 = Finite 20"
    using round64_int [of 5] round64_int [of 10] round64_int [of 15] round64_int [of 20]
    by simp_all
  have r: "round64 (28147497671065601 / 1125899906842624) = Finite 25"
    using round64_scaled [of 48 "28147497671065601 / 1125899906842624"]
    by (simp add: round_half_even_def Let_def)
  show ?thesis
    by (simp add: latency_sum_def boundary_timed_events_def example_events i r)
qed

lemma boundary_batch_without_advice:
  "length boundary_timed_events = 5"
  "length (filter is_blocked boundary_timed_events) = 4"
  "5 < (5 + 5 + 5 + 5 + (5 + 1 / 2 ^ 50)) / (5 :: real)"
  "AvgLatencyMs (calculateRuleMetrics ''1001'' boundary_timed_events) = Finite 5"
  "generateRecommendations (calculateRuleMetrics ''1001'' boundary_timed_events) = []"
proof -
  show n: "length boundary_timed_events = 5"
    and b: "length (filter is_blocked boundary_timed_events) = 4"
    by (simp_all add: boundary_timed_events_def example_events)
  show "5 < (5 + 5 + 5 + 5 + (5 + 1 / 2 ^ 50)) / (5 :: real)"
    by simp
  have five: "round64 5 = Finite 5"
    using round64_int [of 5] by simp
  show "AvgLatencyMs (calculateRuleMetrics ''1001'' boundary_timed_events) = Finite 5"
    by (simp add: five_events_metrics(6) [OF n b] boundary_sum five)
  show "generateRecommendations (calculateRuleMetrics ''1001'' boundary_timed_events) = []"
    by (simp add: five_events_recommendations [OF n b] boundary_sum five)
qed

subsection \<open>Entropy: what holds for every string, and for ASCII strings\<close>

text \<open>
  The sum \<open>calculateEntropy\<close> computes is never negative, it is zero on the empty string
  and on every string that repeats one byte, and on a non-empty string of ASCII bytes,
  where every rune is one byte, it is at most the binary logarithm of the number of
  distinct bytes. The upper bound rests on \<open>ln x \<le> x - 1\<close>.
\<close>

lemma entropy_term_bound:
  fixes p N :: real
  assumes "0 < p" and "0 < N"
  shows "- (p * log 2 p) \<le> p * log 2 N + (1 / N - p) / ln 2"
proof -
  have "ln (1 / (N * p)) \<le> 1 / (N * p) - 1"
    using assms by (intro ln_le_minus_one) simp
  then have "p * ln (1 / (N * p)) \<le> p * (1 / (N * p) - 1)"
    using assms by (intro mult_left_mono) simp_all
  also have "p * (1 / (N * p) - 1) = 1 / N - p"
    using assms by (simp add: field_simps)
  finally have "p * ln (1 / (N * p)) \<le> 1 / N - p" .
  moreover have "ln (1 / (N * p)) = - ln N - ln p"
    using assms by (simp add: ln_div ln_mult)
  ultimately have "- (p * ln p) - p * ln N \<le> 1 / N - p"
    by (simp add: algebra_simps)
  then have "(- (p * ln p) - p * ln N) / ln 2 \<le> (1 / N - p) / ln 2"
    by (intro divide_right_mono) simp_all
  moreover have "(- (p * ln p) - p * ln N) / ln 2 = - (p * log 2 p) - p * log 2 N"
    by (simp add: log_def diff_divide_distrib)
  ultimately show ?thesis
    by linarith
qed

lemma entropy_sum_bound:
  fixes ps :: "real list" and N :: real
  assumes "\<forall>p\<in>set ps. 0 < p" and "0 < N"
  shows "(\<Sum>p\<leftarrow>ps. - (p * log 2 p))
           \<le> sum_list ps * log 2 N + (real (length ps) / N - sum_list ps) / ln 2"
  using assms(1)
proof (induction ps)
  case Nil
  show ?case by simp
next
  case (Cons p ps)
  have "- (p * log 2 p) \<le> p * log 2 N + (1 / N - p) / ln 2"
    using Cons.prems assms(2) by (intro entropy_term_bound) simp_all
  moreover have "(\<Sum>p\<leftarrow>ps. - (p * log 2 p))
           \<le> sum_list ps * log 2 N + (real (length ps) / N - sum_list ps) / ln 2"
    using Cons by simp
  ultimately show ?case
    by (simp add: algebra_simps add_divide_distrib diff_divide_distrib)
qed

lemma entropy_sum_nonneg:
  fixes ps :: "real list"
  assumes "\<forall>p\<in>set ps. 0 < p \<and> p \<le> 1"
  shows "0 \<le> (\<Sum>p\<leftarrow>ps. - (p * log 2 p))"
proof (rule sum_list_nonneg)
  fix x
  assume "x \<in> set (map (\<lambda>p. - (p * log 2 p)) ps)"
  then obtain p where p: "p \<in> set ps" "x = - (p * log 2 p)"
    by auto
  then have "0 < p" "p \<le> 1"
    using assms by auto
  then have "log 2 p \<le> 0"
    by simp
  then have "p * log 2 p \<le> 0"
    using \<open>0 < p\<close> by (simp add: mult_le_0_iff)
  then show "0 \<le> x"
    using p by simp
qed


lemma freq_incr_facts:
  "sum_list (map snd (freq_incr r m)) = sum_list (map snd m) + 1"
  "map fst (freq_incr r m) = (if r \<in> fst ` set m then map fst m else map fst m @ [r])"
  "(\<forall>f\<in>snd ` set m. 0 < f) \<Longrightarrow> (\<forall>f\<in>snd ` set (freq_incr r m). 0 < f)"
  by (induction r m rule: freq_incr.induct) (auto simp: image_iff)

lemma freq_fold_facts:
  assumes "distinct (map fst m)" and "\<forall>f\<in>snd ` set m. 0 < f"
  shows "distinct (map fst (foldl (\<lambda>m r. freq_incr r m) m rs))
         \<and> set (map fst (foldl (\<lambda>m r. freq_incr r m) m rs)) = fst ` set m \<union> set rs
         \<and> sum_list (map snd (foldl (\<lambda>m r. freq_incr r m) m rs))
             = sum_list (map snd m) + real (length rs)
         \<and> (\<forall>f\<in>snd ` set (foldl (\<lambda>m r. freq_incr r m) m rs). 0 < f)"
  using assms
proof (induction rs arbitrary: m)
  case Nil
  then show ?case by simp
next
  case (Cons r rs)
  have d: "distinct (map fst (freq_incr r m))"
    using Cons.prems(1) by (simp add: freq_incr_facts(2))
  have p: "\<forall>f\<in>snd ` set (freq_incr r m). 0 < f"
    using Cons.prems(2) by (rule freq_incr_facts(3))
  have k: "fst ` set (freq_incr r m) = insert r (fst ` set m)"
    using freq_incr_facts(2) [of r m] set_map [of fst "freq_incr r m"] by (auto split: if_splits)
  show ?case
    using Cons.IH [OF d p] by (simp add: k freq_incr_facts(1))
qed

lemma freq_table_facts:
  "distinct (map fst (freq_table rs))"
  "set (map fst (freq_table rs)) = set rs"
  "sum_list (map snd (freq_table rs)) = real (length rs)"
  "\<forall>f\<in>set (map snd (freq_table rs)). 0 < f"
  using freq_fold_facts [of "[]" rs] by (simp_all add: freq_table_def)

lemma length_freq_table: "length (freq_table rs) = card (set rs)"
  using distinct_card [OF freq_table_facts(1), of rs] freq_table_facts(2) [of rs] by simp

lemma member_le_sum_list_real:
  fixes xs :: "real list"
  assumes "\<forall>y\<in>set xs. 0 \<le> y" and "x \<in> set xs"
  shows "x \<le> sum_list xs"
  using assms
proof (induction xs)
  case Nil
  then show ?case by simp
next
  case (Cons a xs)
  have "0 \<le> sum_list xs"
    using Cons.prems(1) by (intro sum_list_nonneg) simp
  then show ?case
    using Cons by auto
qed

lemma entropy_foldl:
  fixes g :: "real \<Rightarrow> real" and kvs :: "(nat \<times> real) list"
  shows "foldl (\<lambda>entropy (r, f). entropy - g f) e kvs = e + (\<Sum>f\<leftarrow>map snd kvs. - g f)"
  by (induction kvs arbitrary: e) (auto simp: case_prod_unfold)

lemma sum_list_shares:
  fixes fs :: "real list"
  shows "sum_list (map (\<lambda>f. f / n) fs) = sum_list fs / n"
  by (induction fs) (simp_all add: add_divide_distrib)

lemma calculateEntropy_sum:
  "s \<noteq> [] \<Longrightarrow>
   calculateEntropy s
     = (\<Sum>p\<leftarrow>map (\<lambda>f. f / real (length s)) (map snd (freq_table (runes s))).
          - (p * log 2 p))"
  by (simp add: calculateEntropy_def entropy_foldl comp_def)

lemma length_runes_from: "length (runes_from k s) \<le> length s"
  by (induction s arbitrary: k) (auto simp: le_SucI split: prod.splits)

lemma length_runes: "length (runes s) \<le> length s"
  by (simp add: runes_def length_runes_from)

lemma entropy_nonneg: "0 \<le> calculateEntropy s"
proof (cases "s = []")
  case True
  then show ?thesis by (simp add: calculateEntropy_def)
next
  case False
  let ?fs = "map snd (freq_table (runes s))"
  have n: "0 < real (length s)"
    using False by simp
  have "\<forall>p\<in>set (map (\<lambda>f. f / real (length s)) ?fs). 0 < p \<and> p \<le> 1"
  proof
    fix p
    assume "p \<in> set (map (\<lambda>f. f / real (length s)) ?fs)"
    then obtain f where f: "f \<in> set ?fs" "p = f / real (length s)"
      by auto
    have pos: "0 < f"
      using f(1) freq_table_facts(4) by blast
    have "f \<le> sum_list ?fs"
      using freq_table_facts(4) [of "runes s"] f(1)
      by (intro member_le_sum_list_real) (auto simp: less_imp_le)
    also have "\<dots> = real (length (runes s))"
      by (rule freq_table_facts(3))
    also have "\<dots> \<le> real (length s)"
      using length_runes [of s] by simp
    finally have "f \<le> real (length s)" .
    then show "0 < p \<and> p \<le> 1"
      using pos n f(2) by simp
  qed
  then show ?thesis
    unfolding calculateEntropy_sum [OF False] by (rule entropy_sum_nonneg)
qed

lemma entropy_upper_ascii:
  assumes "\<forall>c\<in>set s. (of_char c :: nat) < 128" and "s \<noteq> []"
  shows "calculateEntropy s \<le> log 2 (real (card (set s)))"
proof -
  let ?fs = "map snd (freq_table (runes s))"
  let ?ps = "map (\<lambda>f. f / real (length s)) ?fs"
  have r: "runes s = map of_char s"
    using assms(1) by (rule runes_ascii)
  have "card (set (runes s)) = card ((of_char :: char \<Rightarrow> nat) ` set s)"
    by (simp add: r)
  also have "\<dots> = card (set s)"
    by (intro card_image inj_onI) simp
  finally have len: "length ?ps = card (set s)"
    by (simp add: length_freq_table)
  have N: "0 < real (card (set s))"
    using assms(2) by (simp add: card_gt_0_iff)
  have "sum_list ?ps = sum_list ?fs / real (length s)"
    by (rule sum_list_shares)
  also have "\<dots> = 1"
    using assms(2) by (simp add: freq_table_facts(3) r)
  finally have one: "sum_list ?ps = 1" .
  have pos: "\<forall>p\<in>set ?ps. 0 < p"
    using freq_table_facts(4) [of "runes s"] assms(2) by auto
  have "(\<Sum>p\<leftarrow>?ps. - (p * log 2 p))
          \<le> sum_list ?ps * log 2 (real (card (set s)))
             + (real (length ?ps) / real (card (set s)) - sum_list ?ps) / ln 2"
    using pos N by (rule entropy_sum_bound)
  also have "\<dots> = log 2 (real (card (set s)))"
    unfolding one len using N assms(2) by simp
  finally show ?thesis
    unfolding calculateEntropy_sum [OF assms(2)] .
qed


lemma decoderune_repeated:
  assumes "128 \<le> (of_char c :: nat)"
  shows "decoderune (c # replicate n c) = (runeError, 1)"
proof (cases "(of_char c :: nat) < 192")
  case True
  with assms show ?thesis
    by (simp add: Let_def)
next
  case False
  then have nc: "cont_byte c = False"
    by (simp add: cont_byte_def)
  show ?thesis
  proof (cases n)
    case 0
    with assms show ?thesis
      by (simp add: Let_def)
  next
    case (Suc m)
    with assms show ?thesis
      by (simp add: Let_def nc split: list.split)
  qed
qed

lemma runes_from_constant:
  "runes_from 0 (replicate n c)
     = replicate n (if (of_char c :: nat) < 128 then of_char c else runeError)"
proof (induction n)
  case 0
  show ?case by simp
next
  case (Suc n)
  show ?case
  proof (cases "(of_char c :: nat) < 128")
    case True
    then show ?thesis
      using Suc by (simp add: decoderune_ascii del: decoderune.simps)
  next
    case False
    then have "decoderune (c # replicate n c) = (runeError, 1)"
      by (intro decoderune_repeated) simp
    then show ?thesis
      using Suc False by (simp del: decoderune.simps)
  qed
qed

lemma freq_fold_constant:
  "foldl (\<lambda>m r. freq_incr r m) [(r, f)] (replicate n r) = [(r, f + real n)]"
  by (induction n arbitrary: f) (simp_all add: add.assoc)

lemma freq_table_constant: "freq_table (replicate (Suc n) r) = [(r, 1 + real n)]"
  by (simp add: freq_table_def freq_fold_constant)

lemma entropy_constant: "calculateEntropy (replicate n c) = 0"
proof (cases n)
  case 0
  then show ?thesis by (simp add: calculateEntropy_def)
next
  case (Suc m)
  then show ?thesis
    by (simp add: calculateEntropy_def runes_def runes_from_constant freq_table_constant
             del: replicate.simps)
qed

subsection \<open>Entropy of strings that are not ASCII\<close>

lemma runes_examples:
  "runes stray_then_e_acute = [65533, 233]"
  "runes e_acute_twice = [233, 233]"
  by (simp_all add: runes_def stray_then_e_acute_def e_acute_twice_def cont_byte_def
        runeError_def)

lemma log2_three: "3 / 2 < log 2 (3 :: real)"
proof -
  have "(2 :: real) powr (3 / 2) = 2 powr (3 * (1 / 2))"
    by simp
  also have "\<dots> = (2 powr 3) powr (1 / 2)"
    by (rule powr_powr [symmetric])
  also have "\<dots> = sqrt 8"
    by (simp add: powr_half_sqrt)
  also have "\<dots> < 3"
    by (rule real_less_lsqrt) simp_all
  finally have "(2 :: real) powr (3 / 2) < 3" .
  moreover have "(3 / 2 < log 2 (3 :: real)) = ((2 :: real) powr (3 / 2) < 3)"
    by (rule less_log_iff) simp_all
  ultimately show ?thesis
    by (simp only:)
qed

lemma entropy_stray: "calculateEntropy stray_then_e_acute = 2 / 3 * log 2 3"
proof -
  have "log 2 (1 / 3 :: real) = - log 2 3"
    by (simp add: log_divide)
  then show ?thesis
    by (simp add: calculateEntropy_def runes_examples freq_table_def)
       (simp add: stray_then_e_acute_def)
qed

lemma entropy_twice: "calculateEntropy e_acute_twice = 1 / 2"
proof -
  have "log 2 (1 / 2 :: real) = - 1"
    by (simp add: log_divide)
  then show ?thesis
    by (simp add: calculateEntropy_def runes_examples freq_table_def)
       (simp add: e_acute_twice_def)
qed

text \<open>
  C6 (the code at failing inputs). \<open>calculateEntropy\<close> counts runes but divides by the
  length in bytes. On the three bytes \<open>A9 C3 A9\<close> it counts two runes once each, so each
  gets the share one third, and the result \<open>2/3 * log 2 3\<close> exceeds one bit although the
  string has two distinct bytes and two distinct runes. On the letter e with acute accent
  written twice, four bytes and one rune, the result is one half and not zero.
\<close>

theorem entropy_counts_runes_over_bytes:
  "runes stray_then_e_acute = [65533, 233]
   \<and> length stray_then_e_acute = 3
   \<and> card (set stray_then_e_acute) = 2
   \<and> card (set (runes stray_then_e_acute)) = 2
   \<and> calculateEntropy stray_then_e_acute = 2 / 3 * log 2 3
   \<and> log 2 2 < calculateEntropy stray_then_e_acute
   \<and> runes e_acute_twice = [233, 233]
   \<and> calculateEntropy e_acute_twice = 1 / 2"
proof -
  have "log 2 2 < 2 / 3 * log 2 (3 :: real)"
    using log2_three by simp
  moreover have "card (set stray_then_e_acute) = 2"
    by (simp add: stray_then_e_acute_def card_insert_if)
  moreover have "length stray_then_e_acute = 3"
    by (simp add: stray_then_e_acute_def)
  ultimately show ?thesis
    by (simp add: runes_examples entropy_stray entropy_twice)
qed

end
